theory Spec2Isabelle
  imports Main "HOL-Library.AList"
begin

section \<open>JavaScript values\<close>

text \<open>
  The client is JavaScript. A JavaScript string is modelled as a \<open>string\<close>, one
  \<open>char\<close> for each code unit (so \<open>length\<close> is the \<open>.length\<close> of the source; code
  units above 255 are outside the model). A number is carried by the text that
  \<open>String(n)\<close> gives for it, which is all the client ever does with a number besides
  testing it for truth: \<open>0\<close> and \<open>NaN\<close> are the falsy numbers.
\<close>

datatype jsval =
    JUndefined
  | JNull
  | JBool bool
  | JNum string
  | JStr string
  | JArr "jsval list"
  | JObj "(string \<times> jsval) list"

text \<open>Truthiness, as \<open>if (v)\<close>, \<open>!v\<close> and \<open>a || b\<close> read a value.\<close>

fun truthy :: "jsval \<Rightarrow> bool" where
  "truthy JUndefined = False"
| "truthy JNull = False"
| "truthy (JBool b) = b"
| "truthy (JNum r) = (r \<noteq> ''0'' \<and> r \<noteq> ''NaN'')"
| "truthy (JStr s) = (s \<noteq> [])"
| "truthy (JArr xs) = True"
| "truthy (JObj kvs) = True"

text \<open>The decimal text of a natural number (a string length, an HTTP status).\<close>

definition digit_char :: "nat \<Rightarrow> char" where
  "digit_char d = char_of (48 + d)"

function dec :: "nat \<Rightarrow> string" where
  "dec n = (if n < 10 then [digit_char n] else dec (n div 10) @ [digit_char (n mod 10)])"
  by pat_completeness auto
termination
  by (relation "measure id") auto

declare dec.simps [simp del]

text \<open>\<open>Array.prototype.join\<close> on strings already converted.\<close>

fun join :: "string \<Rightarrow> string list \<Rightarrow> string" where
  "join sep [] = []"
| "join sep [x] = x"
| "join sep (x # y # ys) = x @ sep @ join sep (y # ys)"

text \<open>
  \<open>String(v)\<close>: what \<open>localStorage.setItem\<close> stores for a value and what \<open>join\<close>
  writes for an element (\<open>join\<close> writes nothing for \<open>null\<close> and \<open>undefined\<close>).
\<close>

fun to_String :: "jsval \<Rightarrow> string" where
  "to_String JUndefined = ''undefined''"
| "to_String JNull = ''null''"
| "to_String (JBool b) = (if b then ''true'' else ''false'')"
| "to_String (JNum r) = r"
| "to_String (JStr s) = s"
| "to_String (JArr xs) =
     join '','' (map (\<lambda>x. if x = JUndefined \<or> x = JNull then [] else to_String x) xs)"
| "to_String (JObj kvs) = ''[object Object]''"

definition array_join :: "string \<Rightarrow> jsval list \<Rightarrow> string" where
  "array_join sep xs =
     join sep (map (\<lambda>x. if x = JUndefined \<or> x = JNull then [] else to_String x) xs)"

text \<open>\<open>typeof v\<close>.\<close>

fun typeof :: "jsval \<Rightarrow> string" where
  "typeof JUndefined = ''undefined''"
| "typeof (JBool b) = ''boolean''"
| "typeof (JNum r) = ''number''"
| "typeof (JStr s) = ''string''"
| "typeof v = ''object''"

section \<open>Requests, responses and errors\<close>

text \<open>
  The body handed to \<open>api.post\<close>: a plain value (sent as JSON), a \<open>FormData\<close> or a
  \<open>URLSearchParams\<close>, the latter two as their list of entries.
\<close>

datatype body =
    Plain jsval
  | FormData "(string \<times> string) list"
  | URLSearchParams "(string \<times> string) list"

text \<open>The request configuration; \<open>http_method\<close> is its field \<open>method\<close>.\<close>

record config =
  url :: string
  http_method :: string
  headers :: "(string \<times> string) list"
  data :: body

record response =
  status :: nat
  statusText :: string
  resp_headers :: "(string \<times> string) list"
  resp_data :: jsval

text \<open>The \<open>XMLHttpRequest\<close> that axios puts in \<open>error.request\<close>: an opaque host object.\<close>

datatype xhr = XMLHttpRequest

text \<open>
  A thrown error: \<open>constructor.name\<close>, \<open>message\<close> and the two fields axios adds,
  \<open>response\<close> (when the server answered) and \<open>request\<close>.
\<close>

record error =
  err_name :: string
  err_message :: string
  err_response :: "response option"
  err_request :: "xhr option"

definition new_Error :: "string \<Rightarrow> error" where
  "new_Error msg =
     \<lparr>err_name = ''Error'', err_message = msg, err_response = None, err_request = None\<rparr>"

definition TypeError :: "string \<Rightarrow> error" where
  "TypeError msg =
     \<lparr>err_name = ''TypeError'', err_message = msg, err_response = None, err_request = None\<rparr>"

text \<open>
  Reading a property \<open>v.k\<close>. It throws on \<open>undefined\<close> and \<open>null\<close>; an object gives the
  field or \<open>undefined\<close> (an object is the list of its properties, each key once); a
  string and an array have \<open>length\<close>.
\<close>

fun get_prop :: "jsval \<Rightarrow> string \<Rightarrow> error + jsval" where
  "get_prop JUndefined k = Inl (TypeError ''Cannot read properties of undefined'')"
| "get_prop JNull k = Inl (TypeError ''Cannot read properties of null'')"
| "get_prop (JObj kvs) k = Inr (case map_of kvs k of None \<Rightarrow> JUndefined | Some v \<Rightarrow> v)"
| "get_prop (JStr s) k = Inr (if k = ''length'' then JNum (dec (length s)) else JUndefined)"
| "get_prop (JArr xs) k = Inr (if k = ''length'' then JNum (dec (length xs)) else JUndefined)"
| "get_prop v k = Inr JUndefined"

definition headers_obj :: "(string \<times> string) list \<Rightarrow> jsval" where
  "headers_obj hs = JObj (map (\<lambda>(k, v). (k, JStr v)) hs)"

section \<open>The browser and the network\<close>

text \<open>What \<open>console.log\<close> and \<open>console.error\<close> are given.\<close>

datatype logarg = V jsval | D body | X xhr | E error

abbreviation S :: "string \<Rightarrow> logarg" where
  "S s \<equiv> V (JStr s)"

datatype level = Log | Err

type_synonym logline = "level \<times> logarg list"

text \<open>The user object held by \<open>AuthProvider\<close>: \<open>{ token }\<close>; \<open>None\<close> is \<open>null\<close>.\<close>

record user_obj =
  token :: jsval

text \<open>
  Everything the client reads or writes: \<open>localStorage\<close>, the console, the address of the
  page, the state of \<open>AuthProvider\<close> (\<open>user\<close>, \<open>loading\<close>), the router's navigations, the
  requests put on the wire and the state of the server behind them.
\<close>

record 'srv world =
  localStorage :: "string \<rightharpoonup> string"
  console :: "logline list"
  href :: string
  user :: "user_obj option"
  loading :: bool
  navigations :: "string list"
  sent :: "config list"
  srv :: 'srv

datatype outcome = Responds response | NetworkError

type_synonym 'srv server = "'srv \<Rightarrow> config \<Rightarrow> outcome \<times> 'srv"

definition console_log :: "logarg list \<Rightarrow> 'srv world \<Rightarrow> 'srv world" where
  "console_log args w = w\<lparr>console := console w @ [(Log, args)]\<rparr>"

definition console_error :: "logarg list \<Rightarrow> 'srv world \<Rightarrow> 'srv world" where
  "console_error args w = w\<lparr>console := console w @ [(Err, args)]\<rparr>"

definition getItem :: "string \<Rightarrow> 'srv world \<Rightarrow> string option" where
  "getItem k w = localStorage w k"

definition setItem :: "string \<Rightarrow> jsval \<Rightarrow> 'srv world \<Rightarrow> 'srv world" where
  "setItem k v w = w\<lparr>localStorage := (localStorage w)(k \<mapsto> to_String v)\<rparr>"

definition removeItem :: "string \<Rightarrow> 'srv world \<Rightarrow> 'srv world" where
  "removeItem k w = w\<lparr>localStorage := (localStorage w)(k := None)\<rparr>"

text \<open>
  The loop \<open>for (let pair of d.entries()) console.log(pair[0] + ': ' + pair[1])\<close>, which
  the request interceptor and \<open>login\<close> both have.
\<close>

definition log_entries :: "(string \<times> string) list \<Rightarrow> 'srv world \<Rightarrow> 'srv world" where
  "log_entries es w = fold (\<lambda>(k, v). console_log [S (k @ '': '' @ v)]) es w"

section \<open>The api client (services/api.js)\<close>

text \<open>
  The headers every call starts from: the \<open>Accept\<close> header that axios gives every
  request, and the \<open>Content-Type\<close> that \<open>axios.create\<close> is given here. The headers of a
  call are written over them.
\<close>

definition default_headers :: "(string \<times> string) list" where
  "default_headers =
     [(''Accept'', ''application/json, text/plain, */*''),
      (''Content-Type'', ''application/json'')]"

definition merge_headers :: "(string \<times> string) list \<Rightarrow> (string \<times> string) list" where
  "merge_headers hs = fold (\<lambda>(k, v). AList.update k v) hs default_headers"

fun typeof_body :: "body \<Rightarrow> string" where
  "typeof_body (Plain v) = typeof v"
| "typeof_body (FormData es) = ''object''"
| "typeof_body (URLSearchParams es) = ''object''"

text \<open>The first request interceptor registered (api.js, ``Add request logging'').\<close>

definition request_logging :: "config \<Rightarrow> 'srv world \<Rightarrow> config \<times> 'srv world" where
  "request_logging cfg w =
     (let w = console_log [S ''=== API Request Interceptor ===''] w;
          w = console_log [S ''Request URL:'', S (url cfg)] w;
          w = console_log [S ''Request Method:'', S (http_method cfg)] w;
          w = console_log [S ''Request Headers:'', V (headers_obj (headers cfg))] w;
          w = console_log [S ''Request Data Type:'', S (typeof_body (data cfg))] w;
          w = (case data cfg of
                 FormData es \<Rightarrow> log_entries es (console_log [S ''FormData contents:''] w)
               | _ \<Rightarrow> console_log [S ''Request Data:'', D (data cfg)] w)
      in case getItem ''token'' w of
           None \<Rightarrow> (cfg, w)
         | Some t \<Rightarrow>
             if t \<noteq> [] then
               (cfg\<lparr>headers := AList.update ''Authorization'' (''Bearer '' @ t) (headers cfg)\<rparr>,
                console_log [S ''Added Authorization header''] w)
             else (cfg, w))"

text \<open>The second request interceptor registered (``add token'').\<close>

definition request_token :: "config \<Rightarrow> 'srv world \<Rightarrow> config \<times> 'srv world" where
  "request_token cfg w =
     (case getItem ''token'' w of
        None \<Rightarrow> (cfg, w)
      | Some t \<Rightarrow>
          if t \<noteq> [] then
            (cfg\<lparr>headers := AList.update ''Authorization'' (''Bearer '' @ t) (headers cfg)\<rparr>, w)
          else (cfg, w))"

text \<open>The first response interceptor: its handler for a response and for an error.\<close>

definition response_logging :: "response \<Rightarrow> 'srv world \<Rightarrow> response \<times> 'srv world" where
  "response_logging r w =
     (let w = console_log [S ''=== API Response Interceptor ===''] w;
          w = console_log [S ''Response Status:'', V (JNum (dec (status r)))] w;
          w = console_log [S ''Response Headers:'', V (headers_obj (resp_headers r))] w;
          w = console_log [S ''Response Data:'', V (resp_data r)] w
      in (r, w))"

definition on_401 :: "error \<Rightarrow> 'srv world \<Rightarrow> 'srv world" where
  "on_401 e w =
     (case err_response e of
        None \<Rightarrow> w
      | Some r \<Rightarrow>
          if status r = 401 then (removeItem ''token'' w)\<lparr>href := ''/login''\<rparr> else w)"

definition response_logging_error :: "error \<Rightarrow> 'srv world \<Rightarrow> error \<times> 'srv world" where
  "response_logging_error e w =
     (let w = console_error [S ''=== API Response Error ===''] w;
          w = (case err_response e of
                 Some r \<Rightarrow>
                   (let w = console_error [S ''Error Status:'', V (JNum (dec (status r)))] w;
                        w = console_error [S ''Error Headers:'', V (headers_obj (resp_headers r))] w
                    in console_error [S ''Error Data:'', V (resp_data r)] w)
               | None \<Rightarrow>
                   (case err_request e of
                      Some x \<Rightarrow> console_error [S ''No response received:'', X x] w
                    | None \<Rightarrow>
                        console_error [S ''Error setting up request:'', S (err_message e)] w))
      in (e, on_401 e w))"

text \<open>The second response interceptor: the identity on a response; on an error:\<close>

definition response_unauthorized :: "error \<Rightarrow> 'srv world \<Rightarrow> error \<times> 'srv world" where
  "response_unauthorized e w = (e, on_401 e w)"

text \<open>
  What axios itself does, from its documented behaviour: request interceptors run in the
  reverse of the order they were registered in, response interceptors in that order; the
  request goes out with the configuration the interceptors return; a response resolves
  the call when its status is in 200..299 (\<open>validateStatus\<close>) and rejects it with an
  error holding the response otherwise; no response at all rejects it with a network
  error. The name and the messages of these errors are axios's own.
\<close>

definition validateStatus :: "nat \<Rightarrow> bool" where
  "validateStatus st = (200 \<le> st \<and> st < 300)"

definition status_error :: "response \<Rightarrow> error" where
  "status_error r =
     \<lparr>err_name = ''AxiosError'',
      err_message = ''Request failed with status code '' @ dec (status r),
      err_response = Some r, err_request = Some XMLHttpRequest\<rparr>"

definition network_error :: error where
  "network_error =
     \<lparr>err_name = ''AxiosError'', err_message = ''Network Error'',
      err_response = None, err_request = Some XMLHttpRequest\<rparr>"

definition dispatch :: "'srv server \<Rightarrow> config \<Rightarrow> 'srv world \<Rightarrow> outcome \<times> 'srv world" where
  "dispatch serve cfg w =
     (let (out, s) = serve (srv w) cfg
      in (out, w\<lparr>sent := sent w @ [cfg], srv := s\<rparr>))"

definition reject :: "error \<Rightarrow> 'srv world \<Rightarrow> (error + response) \<times> 'srv world" where
  "reject e w =
     (let (e, w) = response_logging_error e w;
          (e, w) = response_unauthorized e w
      in (Inl e, w))"

definition api_request ::
  "'srv server \<Rightarrow> config \<Rightarrow> 'srv world \<Rightarrow> (error + response) \<times> 'srv world" where
  "api_request serve cfg w =
     (let (cfg, w) = request_token cfg w;
          (cfg, w) = request_logging cfg w;
          (out, w) = dispatch serve cfg w
      in case out of
           Responds r \<Rightarrow>
             if validateStatus (status r) then
               (let (r, w) = response_logging r w in (Inr r, w))
             else reject (status_error r) w
         | NetworkError \<Rightarrow> reject network_error w)"

definition api_post ::
  "'srv server \<Rightarrow> string \<Rightarrow> body \<Rightarrow> (string \<times> string) list \<Rightarrow> 'srv world \<Rightarrow>
     (error + response) \<times> 'srv world" where
  "api_post serve u d hs w =
     api_request serve \<lparr>url = u, http_method = ''post'', headers = merge_headers hs, data = d\<rparr> w"

section \<open>AuthProvider (context/AuthContext.jsx)\<close>

text \<open>
  \<open>useState(null)\<close>, \<open>useState(true)\<close>, then the effect run on mount. \<open>if (token)\<close> is
  false for \<open>null\<close> (no entry) and for the empty string.
\<close>

definition AuthProvider_init :: "'srv world \<Rightarrow> 'srv world" where
  "AuthProvider_init w = w\<lparr>user := None, loading := True\<rparr>"

definition AuthProvider_effect :: "'srv world \<Rightarrow> 'srv world" where
  "AuthProvider_effect w =
     (let w = (case getItem ''token'' w of
                 None \<Rightarrow> w
               | Some t \<Rightarrow> if t \<noteq> [] then w\<lparr>user := Some \<lparr>token = JStr t\<rparr>\<rparr> else w)
      in w\<lparr>loading := False\<rparr>)"

definition mount :: "'srv world \<Rightarrow> 'srv world" where
  "mount w = AuthProvider_effect (AuthProvider_init w)"

text \<open>The \<open>catch\<close> block of \<open>login\<close>; the error is thrown again by the caller below.\<close>

definition login_catch :: "error \<Rightarrow> 'srv world \<Rightarrow> 'srv world" where
  "login_catch error w =
     (let w = console_error [S ''=== Login Flow Error ===''] w;
          w = console_error [S ''Error type:'', S (err_name error)] w;
          w = console_error [S ''Error message:'', S (err_message error)] w;
          w = (case err_response error of
                 None \<Rightarrow> w
               | Some r \<Rightarrow>
                   (let w = console_error [S ''Response status:'', V (JNum (dec (status r)))] w;
                        w = console_error
                              [S ''Response headers:'', V (headers_obj (resp_headers r))] w
                    in console_error [S ''Response data:'', V (resp_data r)] w));
          w = (case err_request error of
                 None \<Rightarrow> w
               | Some x \<Rightarrow>
                   console_error
                     [S ''Request config:'',
                      V (JObj [(''method'', JUndefined), (''url'', JUndefined),
                               (''headers'', JUndefined)])] w)
      in console_error [S ''=== End Error Details ===''] w)"

definition login_invalid :: "jsval \<Rightarrow> 'srv world \<Rightarrow> (error + bool) \<times> 'srv world" where
  "login_invalid d w =
     (let w = console_error [S ''Invalid login response:'', V d] w;
          error = new_Error ''Invalid login response format''
      in (Inl error, login_catch error w))"

text \<open>The \<open>try\<close> block of \<open>login\<close> from the point where the call has resolved.\<close>

definition login_resolved ::
  "response \<Rightarrow> 'srv world \<Rightarrow> (error + bool) \<times> 'srv world" where
  "login_resolved response w =
     (let w = console_log
                [S ''Response received:'',
                 V (JObj [(''status'', JNum (dec (status response))),
                          (''statusText'', JStr (statusText response)),
                          (''headers'', headers_obj (resp_headers response)),
                          (''data'', resp_data response)])] w
      in if \<not> truthy (resp_data response) then login_invalid (resp_data response) w
         else
           case get_prop (resp_data response) ''access_token'' of
             Inl error \<Rightarrow> (Inl error, login_catch error w)
           | Inr access_token \<Rightarrow>
               if \<not> truthy access_token then login_invalid (resp_data response) w
               else
                 (case get_prop access_token ''length'' of
                    Inl error \<Rightarrow> (Inl error, login_catch error w)
                  | Inr len \<Rightarrow>
                      (let w = console_log [S ''Access token received, length:'', V len] w;
                           w = setItem ''token'' access_token w;
                           w = w\<lparr>user := Some \<lparr>token = access_token\<rparr>\<rparr>;
                           w = console_log [S ''=== Login Flow Complete ===''] w
                       in (Inr True, w))))"

definition login ::
  "'srv server \<Rightarrow> string \<Rightarrow> string \<Rightarrow> 'srv world \<Rightarrow> (error + bool) \<times> 'srv world" where
  "login serve username password w =
     (let w = console_log [S ''=== Login Flow Start ===''] w;
          w = console_log [S ''Creating FormData...''] w;
          formData = [(''username'', username), (''password'', password),
                      (''grant_type'', ''password'')];
          w = console_log [S ''FormData contents:''] w;
          w = log_entries formData w;
          w = console_log [S ''Sending request to:'', S ''/login''] w;
          (res, w) = api_post serve ''/login'' (URLSearchParams formData)
                       [(''Content-Type'', ''application/x-www-form-urlencoded'')] w
      in case res of
           Inl error \<Rightarrow> (Inl error, login_catch error w)
         | Inr response \<Rightarrow> login_resolved response w)"

text \<open>The outer \<open>catch\<close> block of \<open>register\<close>: \<open>error.response?.data\<close> and \<open>?.status\<close>.\<close>

definition register_catch :: "error \<Rightarrow> 'srv world \<Rightarrow> 'srv world" where
  "register_catch error w =
     console_error
       [S ''Registration/Login error:'',
        V (JObj [(''message'', JStr (err_message error)),
                 (''response'',
                    (case err_response error of None \<Rightarrow> JUndefined | Some r \<Rightarrow> resp_data r)),
                 (''status'',
                    (case err_response error of
                       None \<Rightarrow> JUndefined
                     | Some r \<Rightarrow> JNum (dec (status r))))])] w"

definition register ::
  "'srv server \<Rightarrow> string \<Rightarrow> string \<Rightarrow> 'srv world \<Rightarrow> (error + bool) \<times> 'srv world" where
  "register serve username password w =
     (let w = console_log
                [S ''Starting registration request with:'',
                 V (JObj [(''username'', JStr username)])] w;
          (res, w) = api_post serve ''/register''
                       (Plain (JObj [(''username'', JStr username),
                                     (''password'', JStr password)])) [] w
      in case res of
           Inl error \<Rightarrow> (Inl error, register_catch error w)
         | Inr response \<Rightarrow>
             (let w = console_log [S ''Registration successful''] w;
                  (res, w) = login serve username password w
              in case res of
                   Inr loginSuccess \<Rightarrow> (Inr loginSuccess, w)
                 | Inl loginError \<Rightarrow>
                     (let w = console_error
                                [S ''Post-registration login failed:'', E loginError] w
                      in (Inl loginError, register_catch loginError w))))"

definition logout :: "'srv world \<Rightarrow> 'srv world" where
  "logout w = (removeItem ''token'' w)\<lparr>user := None\<rparr>"

section \<open>ProtectedRoute (components/layout/ProtectedRoute.jsx)\<close>

datatype element = LoadingDiv | Navigate string | Children

definition ProtectedRoute :: "'srv world \<Rightarrow> element" where
  "ProtectedRoute w =
     (if loading w then LoadingDiv
      else if user w = None then Navigate ''/login''
      else Children)"

section \<open>The forms (components/auth/Login.jsx, Register.jsx)\<close>

subsection \<open>Validation functions\<close>

text \<open>
  The character classes of the regular expressions, by code unit: \<open>[A-Z]\<close>, \<open>[a-z]\<close>,
  \<open>[0-9]\<close> and \<open>[a-zA-Z0-9_-]\<close>.
\<close>

definition in_range :: "char \<Rightarrow> char \<Rightarrow> char \<Rightarrow> bool" where
  "in_range lo hi c = ((of_char lo :: nat) \<le> of_char c \<and> (of_char c :: nat) \<le> of_char hi)"

definition upper :: "char \<Rightarrow> bool" where
  "upper c = in_range CHR ''A'' CHR ''Z'' c"

definition lower :: "char \<Rightarrow> bool" where
  "lower c = in_range CHR ''a'' CHR ''z'' c"

definition digit :: "char \<Rightarrow> bool" where
  "digit c = in_range CHR ''0'' CHR ''9'' c"

definition username_char :: "char \<Rightarrow> bool" where
  "username_char c = (lower c \<or> upper c \<or> digit c \<or> c = CHR ''_'' \<or> c = CHR ''-'')"

text \<open>
  \<open>/[C]/.test(s)\<close> finds one character of the class anywhere in \<open>s\<close>;
  \<open>/^[C]+$/.test(s)\<close> wants \<open>s\<close> to be one or more characters, all of the class.
\<close>

definition test_some :: "(char \<Rightarrow> bool) \<Rightarrow> string \<Rightarrow> bool" where
  "test_some cls s = list_ex cls s"

definition test_all1 :: "(char \<Rightarrow> bool) \<Rightarrow> string \<Rightarrow> bool" where
  "test_all1 cls s = (s \<noteq> [] \<and> list_all cls s)"

text \<open>Both files define the same two functions, Register.jsx by copy.\<close>

definition validateUsername :: "string \<Rightarrow> string" where
  "validateUsername username =
     (if username = [] then ''Username is required''
      else if length username < 3 then ''Username must be at least 3 characters long''
      else if \<not> test_all1 username_char username then
        ''Username must contain only letters, numbers, underscores, and hyphens''
      else [])"

definition validatePassword :: "string \<Rightarrow> string" where
  "validatePassword password =
     (if password = [] then ''Password is required''
      else if length password < 8 then ''Password must be at least 8 characters long''
      else if \<not> test_some upper password then
        ''Password must contain at least one uppercase letter''
      else if \<not> test_some lower password then
        ''Password must contain at least one lowercase letter''
      else if \<not> test_some digit password then
        ''Password must contain at least one number''
      else [])"

text \<open>The format rules in the words of the specification, to compare with the above.\<close>

definition password_rule :: "string \<Rightarrow> bool" where
  "password_rule p =
     (8 \<le> length p \<and> list_ex upper p \<and> list_ex lower p \<and> list_ex digit p)"

definition username_rule :: "string \<Rightarrow> bool" where
  "username_rule u =
     (3 \<le> length u \<and>
      list_all (\<lambda>c. upper c \<or> lower c \<or> digit c \<or> c = CHR ''_'' \<or> c = CHR ''-'') u)"

subsection \<open>The message for a failed call\<close>

text \<open>\<open>data.detail.map(err => err.msg)\<close>: reading \<open>msg\<close> throws on a null element.\<close>

fun map_msg :: "jsval list \<Rightarrow> error + jsval list" where
  "map_msg [] = Inr []"
| "map_msg (err # errs) =
     (case get_prop err ''msg'' of
        Inl e \<Rightarrow> Inl e
      | Inr m \<Rightarrow> (case map_msg errs of Inl e \<Rightarrow> Inl e | Inr ms \<Rightarrow> Inr (m # ms)))"

text \<open>
  The case 422 of both forms: the messages of an array joined, else a truthy \<open>detail\<close>
  itself, else the message so far.
\<close>

definition detail_422 :: "jsval \<Rightarrow> jsval \<Rightarrow> error + jsval" where
  "detail_422 d errorMessage =
     (case get_prop d ''detail'' of
        Inl e \<Rightarrow> Inl e
      | Inr (JArr errs) \<Rightarrow>
          (case map_msg errs of
             Inl e \<Rightarrow> Inl e
           | Inr ms \<Rightarrow> Inr (JStr (array_join '', '' ms)))
      | Inr detail \<Rightarrow> Inr (if truthy detail then detail else errorMessage))"

definition Login_errorMessage :: "error \<Rightarrow> error + jsval" where
  "Login_errorMessage error =
     (let errorMessage = JStr ''Login failed. Please try again.''
      in case err_response error of
           None \<Rightarrow> Inr errorMessage
         | Some r \<Rightarrow>
             if status r = 401 then Inr (JStr ''Incorrect username or password'')
             else if status r = 422 then detail_422 (resp_data r) errorMessage
             else if status r = 500 then Inr (JStr ''Server error. Please try again later.'')
             else Inr (JStr ''An unexpected error occurred. Please try again.''))"

definition Register_errorMessage :: "error \<Rightarrow> error + jsval" where
  "Register_errorMessage error =
     (let errorMessage = JStr ''Registration failed. Please try again.''
      in case err_response error of
           None \<Rightarrow> Inr errorMessage
         | Some r \<Rightarrow>
             if status r = 400 then
               (case get_prop (resp_data r) ''detail'' of
                  Inl e \<Rightarrow> Inl e
                | Inr detail \<Rightarrow>
                    Inr (if truthy detail then detail else JStr ''Username already exists''))
             else if status r = 422 then detail_422 (resp_data r) errorMessage
             else if status r = 500 then Inr (JStr ''Server error. Please try again later.'')
             else Inr (JStr ''An unexpected error occurred. Please try again.''))"

subsection \<open>Login\<close>

text \<open>The state of the component: \<open>formData\<close>, \<open>errors\<close>, \<open>isLoading\<close>.\<close>

record login_form =
  formData_username :: string
  formData_password :: string
  errors_username :: string
  errors_password :: string
  errors_form :: jsval
  isLoading :: bool

text \<open>
  \<open>handleSubmit\<close>. The result is \<open>Inl\<close> when the handler itself throws (from its \<open>catch\<close>
  block, after \<open>finally\<close> has run).
\<close>

definition Login_handleSubmit ::
  "'srv server \<Rightarrow> login_form \<Rightarrow> 'srv world \<Rightarrow> (error + unit) \<times> login_form \<times> 'srv world" where
  "Login_handleSubmit serve st w =
     (let usernameError = validateUsername (formData_username st);
          passwordError = validatePassword (formData_password st)
      in if usernameError \<noteq> [] \<or> passwordError \<noteq> [] then
           (Inr (),
            st\<lparr>errors_username := usernameError, errors_password := passwordError,
               errors_form := JStr []\<rparr>, w)
         else
           (let st = st\<lparr>isLoading := True\<rparr>;
                st = st\<lparr>errors_form := JStr []\<rparr>;
                (res, w) = login serve (formData_username st) (formData_password st) w
            in case res of
                 Inr result \<Rightarrow>
                   (Inr (), st\<lparr>isLoading := False\<rparr>,
                    if result then w\<lparr>navigations := navigations w @ [''/tasks'']\<rparr> else w)
               | Inl error \<Rightarrow>
                   (let w = console_error [S ''Login error:'', E error] w
                    in case Login_errorMessage error of
                         Inl e \<Rightarrow> (Inl e, st\<lparr>isLoading := False\<rparr>, w)
                       | Inr errorMessage \<Rightarrow>
                           (Inr (), st\<lparr>errors_form := errorMessage, isLoading := False\<rparr>, w))))"

subsection \<open>Register\<close>

record register_form =
  reg_username :: string
  reg_password :: string
  reg_confirmPassword :: string
  reg_errors_username :: string
  reg_errors_password :: string
  reg_errors_confirmPassword :: string
  reg_errors_form :: jsval
  reg_isLoading :: bool

definition Register_handleSubmit ::
  "'srv server \<Rightarrow> register_form \<Rightarrow> 'srv world \<Rightarrow>
     (error + unit) \<times> register_form \<times> 'srv world" where
  "Register_handleSubmit serve st w =
     (let w = console_log [S ''inside handleSubmit...''] w;
          usernameError = validateUsername (reg_username st);
          passwordError = validatePassword (reg_password st);
          confirmPasswordError =
            (if reg_password st \<noteq> reg_confirmPassword st then ''Passwords do not match''
             else [])
      in if usernameError \<noteq> [] \<or> passwordError \<noteq> [] \<or> confirmPasswordError \<noteq> [] then
           (Inr (),
            st\<lparr>reg_errors_username := usernameError, reg_errors_password := passwordError,
               reg_errors_confirmPassword := confirmPasswordError,
               reg_errors_form := JStr []\<rparr>, w)
         else
           (let st = st\<lparr>reg_isLoading := True\<rparr>;
                st = st\<lparr>reg_errors_form := JStr []\<rparr>;
                (res, w) = register serve (reg_username st) (reg_password st) w
            in case res of
                 Inr result \<Rightarrow>
                   (let w = console_log [S ''Registration and login successful''] w;
                        w = console_log [S ''inside  if (result) {...''] w
                    in (Inr (), st\<lparr>reg_isLoading := False\<rparr>,
                        w\<lparr>navigations := navigations w @ [''/tasks'']\<rparr>))
               | Inl error \<Rightarrow>
                   (let w = console_log [S ''inside Registration error''] w;
                        w = console_error [S ''Registration error:'', E error] w
                    in case Register_errorMessage error of
                         Inl e \<Rightarrow> (Inl e, st\<lparr>reg_isLoading := False\<rparr>, w)
                       | Inr errorMessage \<Rightarrow>
                           (Inr (),
                            st\<lparr>reg_errors_form := errorMessage, reg_isLoading := False\<rparr>,
                            w))))"

section \<open>Notions the statements use\<close>

text \<open>
  The configuration that leaves for the network: what the two request interceptors, run
  in axios's order, make of the configuration of a call.
\<close>

definition outgoing :: "config \<Rightarrow> 'srv world \<Rightarrow> config" where
  "outgoing cfg w =
     fst (request_logging (fst (request_token cfg w)) (snd (request_token cfg w)))"

text \<open>The configurations \<open>api.post\<close> builds for the calls of \<open>login\<close> and \<open>register\<close>.\<close>

definition login_config :: "string \<Rightarrow> string \<Rightarrow> config" where
  "login_config username password =
     \<lparr>url = ''/login'', http_method = ''post'',
      headers = merge_headers [(''Content-Type'', ''application/x-www-form-urlencoded'')],
      data = URLSearchParams [(''username'', username), (''password'', password),
                              (''grant_type'', ''password'')]\<rparr>"

definition register_config :: "string \<Rightarrow> string \<Rightarrow> config" where
  "register_config username password =
     \<lparr>url = ''/register'', http_method = ''post'', headers = merge_headers [],
      data = Plain (JObj [(''username'', JStr username), (''password'', JStr password)])\<rparr>"

text \<open>
  ``The response body contains a non-empty \<open>access_token\<close> field'', in the words of the
  specification: the body is there and its field is there, read by truthiness (for a
  string, being non-empty).
\<close>

definition has_access_token :: "jsval \<Rightarrow> bool" where
  "has_access_token d =
     (truthy d \<and> (case get_prop d ''access_token'' of Inl e \<Rightarrow> False | Inr tok \<Rightarrow> truthy tok))"

definition the_access_token :: "jsval \<Rightarrow> jsval" where
  "the_access_token d = (case get_prop d ''access_token'' of Inl e \<Rightarrow> JUndefined | Inr tok \<Rightarrow> tok)"

text \<open>What \<open>login\<close> writes to the console before it makes its call.\<close>

definition login_prelude :: "string \<Rightarrow> string \<Rightarrow> logline list" where
  "login_prelude username password =
     [(Log, [S ''=== Login Flow Start ==='']), (Log, [S ''Creating FormData...'']),
      (Log, [S ''FormData contents:'']), (Log, [S (''username: '' @ username)]),
      (Log, [S (''password: '' @ password)]), (Log, [S ''grant_type: password'']),
      (Log, [S ''Sending request to:'', S ''/login''])]"

subsection \<open>Concrete inputs\<close>

text \<open>A browser that holds nothing, and servers that give one answer to every request.\<close>

definition fresh :: "unit world" where
  "fresh =
     \<lparr>localStorage = Map.empty, console = [], href = ''/'', user = None, loading = True,
      navigations = [], sent = [], srv = ()\<rparr>"

definition answering :: "outcome \<Rightarrow> unit server" where
  "answering out s c = (out, s)"

definition token_response :: response where
  "token_response =
     \<lparr>status = 200, statusText = ''OK'', resp_headers = [],
      resp_data = JObj [(''access_token'', JStr ''abc.def.ghi''), (''token_type'', JStr ''bearer'')]\<rparr>"

definition denial :: "string \<Rightarrow> response" where
  "denial detail =
     \<lparr>status = 401, statusText = ''Unauthorized'', resp_headers = [],
      resp_data = JObj [(''detail'', JStr detail)]\<rparr>"

definition failure :: response where
  "failure =
     \<lparr>status = 500, statusText = ''Internal Server Error'', resp_headers = [],
      resp_data = JStr ''Internal Server Error''\<rparr>"

definition alice_form :: login_form where
  "alice_form =
     \<lparr>formData_username = ''alice'', formData_password = ''Abcdef12'', errors_username = [],
      errors_password = [], errors_form = JStr [], isLoading = False\<rparr>"

definition tasks_config :: config where
  "tasks_config = \<lparr>url = ''/tasks'', http_method = ''get'', headers = default_headers,
                    data = Plain JUndefined\<rparr>"

section \<open>How a call through the api client runs\<close>

lemmas browser_defs = console_log_def console_error_def getItem_def setItem_def removeItem_def

lemma log_entries_eq:
  "log_entries es w =
     w\<lparr>console := console w @ map (\<lambda>(k, v). (Log, [S (k @ '': '' @ v)])) es\<rparr>"
  unfolding log_entries_def
  by (induction es arbitrary: w) (auto simp: console_log_def)

lemma request_token_snd: "snd (request_token cfg w) = w"
  by (simp add: request_token_def getItem_def split: option.splits)

lemma request_token_fst:
  "fst (request_token cfg w) =
     (case localStorage w ''token'' of
        None \<Rightarrow> cfg
      | Some t \<Rightarrow>
          if t \<noteq> [] then cfg\<lparr>headers := AList.update ''Authorization'' (''Bearer '' @ t) (headers cfg)\<rparr>
          else cfg)"
  by (simp add: request_token_def getItem_def split: option.splits)

lemma request_logging_frame:
  "localStorage (snd (request_logging cfg w)) = localStorage w"
  "href (snd (request_logging cfg w)) = href w"
  "user (snd (request_logging cfg w)) = user w"
  "loading (snd (request_logging cfg w)) = loading w"
  "navigations (snd (request_logging cfg w)) = navigations w"
  "sent (snd (request_logging cfg w)) = sent w"
  "srv (snd (request_logging cfg w)) = srv w"
  by (cases "data cfg";
      simp add: request_logging_def log_entries_eq browser_defs Let_def split: option.splits)+

lemma request_logging_fst: "fst (request_logging cfg w) = fst (request_token cfg w)"
  by (cases "data cfg";
      simp add: request_logging_def request_token_def log_entries_eq browser_defs Let_def
           split: option.splits)

lemma request_logging_console:
  "\<exists>ls. console (snd (request_logging cfg w)) = console w @ ls \<and>
        (Log, [S ''Request Headers:'', V (headers_obj (headers cfg))]) \<in> set ls \<and>
        (case data cfg of
           FormData es \<Rightarrow> \<forall>(k, v) \<in> set es. (Log, [S (k @ '': '' @ v)]) \<in> set ls
         | d \<Rightarrow> (Log, [S ''Request Data:'', D d]) \<in> set ls)"
  by (cases "data cfg";
      auto simp add: request_logging_def log_entries_eq browser_defs Let_def split: option.splits)


lemma update_twice: "AList.update k v (AList.update k v al) = AList.update k v al"
  by (induction al) auto

lemma map_of_update_same: "map_of (AList.update k v al) k = Some v"
  by (simp add: update_conv')

lemma outgoing_eq: "outgoing cfg w = fst (request_token cfg w)"
  by (simp add: outgoing_def request_logging_fst request_token_snd request_token_fst update_twice
           split: option.splits)

lemma response_logging_fst: "fst (response_logging r w) = r"
  by (simp add: response_logging_def Let_def)

lemma response_logging_frame:
  "localStorage (snd (response_logging r w)) = localStorage w"
  "href (snd (response_logging r w)) = href w"
  "user (snd (response_logging r w)) = user w"
  "loading (snd (response_logging r w)) = loading w"
  "navigations (snd (response_logging r w)) = navigations w"
  "sent (snd (response_logging r w)) = sent w"
  "srv (snd (response_logging r w)) = srv w"
  by (simp_all add: response_logging_def browser_defs Let_def)

lemma response_logging_console:
  "\<exists>ls. console (snd (response_logging r w)) = console w @ ls \<and>
        (Log, [S ''Response Data:'', V (resp_data r)]) \<in> set ls"
  by (simp add: response_logging_def browser_defs Let_def)

lemma on_401_frame:
  "console (on_401 e w) = console w"
  "user (on_401 e w) = user w"
  "loading (on_401 e w) = loading w"
  "navigations (on_401 e w) = navigations w"
  "sent (on_401 e w) = sent w"
  "srv (on_401 e w) = srv w"
  by (simp_all add: on_401_def browser_defs split: option.splits)

lemma reject_fst: "fst (reject e w) = Inl e"
  by (simp add: reject_def response_logging_error_def response_unauthorized_def Let_def)

lemma reject_frame:
  "user (snd (reject e w)) = user w"
  "loading (snd (reject e w)) = loading w"
  "navigations (snd (reject e w)) = navigations w"
  "sent (snd (reject e w)) = sent w"
  "srv (snd (reject e w)) = srv w"
  by (simp_all add: reject_def response_logging_error_def response_unauthorized_def on_401_frame
        on_401_def browser_defs Let_def split: option.splits)

lemma reject_storage:
  "localStorage (snd (reject e w)) =
     (case err_response e of
        None \<Rightarrow> localStorage w
      | Some r \<Rightarrow> if status r = 401 then (localStorage w)(''token'' := None) else localStorage w)"
  "href (snd (reject e w)) =
     (case err_response e of
        None \<Rightarrow> href w
      | Some r \<Rightarrow> if status r = 401 then ''/login'' else href w)"
  by (simp_all add: reject_def response_logging_error_def response_unauthorized_def
        on_401_def browser_defs Let_def split: option.splits)

lemma reject_console:
  "\<exists>ls. console (snd (reject e w)) = console w @ ls \<and>
        (case err_response e of
           None \<Rightarrow> True
         | Some r \<Rightarrow> (Err, [S ''Error Data:'', V (resp_data r)]) \<in> set ls)"
  by (simp add: reject_def response_logging_error_def response_unauthorized_def
        on_401_def browser_defs Let_def split: option.splits)

lemma api_request_eq:
  "api_request serve cfg w =
     (let c = outgoing cfg w;
          w1 = (snd (request_logging c w))\<lparr>sent := sent w @ [c], srv := snd (serve (srv w) c)\<rparr>
      in case fst (serve (srv w) c) of
           Responds r \<Rightarrow>
             if validateStatus (status r) then (Inr r, snd (response_logging r w1))
             else (Inl (status_error r), snd (reject (status_error r) w1))
         | NetworkError \<Rightarrow> (Inl network_error, snd (reject network_error w1)))"
proof -
  have tok: "request_token cfg w = (outgoing cfg w, w)"
    by (simp add: outgoing_eq prod_eq_iff request_token_snd)
  have lg: "request_logging (outgoing cfg w) w = (outgoing cfg w, snd (request_logging (outgoing cfg w) w))"
    by (simp add: prod_eq_iff request_logging_fst outgoing_eq request_token_fst update_twice
             split: option.splits)
  have rj: "reject e v = (Inl e, snd (reject e v))" for e and v :: "'a world"
    by (simp add: prod_eq_iff reject_fst)
  have rl: "response_logging r v = (r, snd (response_logging r v))" for r and v :: "'a world"
    by (simp add: prod_eq_iff response_logging_fst)
  show ?thesis
    unfolding api_request_def tok
    apply (simp only: Let_def prod.case)
    apply (subst lg)
    apply (simp only: prod.case dispatch_def Let_def request_logging_frame)
    apply (cases "serve (srv w) (outgoing cfg w)")
    apply (simp split: outcome.splits)
    apply (intro conjI impI allI)
    apply (subst rl, simp)
    apply (subst rj, simp)
    apply (subst rj, simp)
    done
qed


lemma outgoing_storage: "localStorage w' = localStorage w \<Longrightarrow> outgoing cfg w' = outgoing cfg w"
  by (simp add: outgoing_eq request_token_fst)

lemma api_request_frame:
  "user (snd (api_request serve cfg w)) = user w"
  "loading (snd (api_request serve cfg w)) = loading w"
  "navigations (snd (api_request serve cfg w)) = navigations w"
  "sent (snd (api_request serve cfg w)) = sent w @ [outgoing cfg w]"
  "srv (snd (api_request serve cfg w)) = snd (serve (srv w) (outgoing cfg w))"
  by (simp_all add: api_request_eq Let_def reject_frame response_logging_frame
        request_logging_frame split: outcome.splits)

lemma api_request_resolved:
  assumes "fst (serve (srv w) (outgoing cfg w)) = Responds r" "validateStatus (status r)"
  shows "fst (api_request serve cfg w) = Inr r"
    and "localStorage (snd (api_request serve cfg w)) = localStorage w"
    and "href (snd (api_request serve cfg w)) = href w"
  using assms
  by (simp_all add: api_request_eq Let_def response_logging_frame request_logging_frame)

lemma api_request_rejected:
  assumes "fst (serve (srv w) (outgoing cfg w)) = Responds r" "\<not> validateStatus (status r)"
  shows "fst (api_request serve cfg w) = Inl (status_error r)"
    and "localStorage (snd (api_request serve cfg w)) =
           (if status r = 401 then (localStorage w)(''token'' := None) else localStorage w)"
    and "href (snd (api_request serve cfg w)) = (if status r = 401 then ''/login'' else href w)"
  using assms
  by (simp_all add: api_request_eq Let_def reject_storage request_logging_frame status_error_def)

lemma api_request_network:
  assumes "fst (serve (srv w) (outgoing cfg w)) = NetworkError"
  shows "fst (api_request serve cfg w) = Inl network_error"
    and "localStorage (snd (api_request serve cfg w)) = localStorage w"
    and "href (snd (api_request serve cfg w)) = href w"
  using assms
  by (simp_all add: api_request_eq Let_def reject_storage request_logging_frame network_error_def)

lemma api_request_console:
  "\<exists>ls. console (snd (api_request serve cfg w)) = console w @ ls \<and>
        (Log, [S ''Request Headers:'', V (headers_obj (headers (outgoing cfg w)))]) \<in> set ls \<and>
        (case data (outgoing cfg w) of
           FormData es \<Rightarrow> \<forall>(k, v) \<in> set es. (Log, [S (k @ '': '' @ v)]) \<in> set ls
         | d \<Rightarrow> (Log, [S ''Request Data:'', D d]) \<in> set ls) \<and>
        (case fst (serve (srv w) (outgoing cfg w)) of
           Responds r \<Rightarrow>
             (if validateStatus (status r) then (Log, [S ''Response Data:'', V (resp_data r)])
              else (Err, [S ''Error Data:'', V (resp_data r)])) \<in> set ls
         | NetworkError \<Rightarrow> True)"
proof -
  let ?c = "outgoing cfg w"
  obtain l1 where l1: "console (snd (request_logging ?c w)) = console w @ l1"
    "(Log, [S ''Request Headers:'', V (headers_obj (headers ?c))]) \<in> set l1"
    "(case data ?c of
           FormData es \<Rightarrow> \<forall>(k, v) \<in> set es. (Log, [S (k @ '': '' @ v)]) \<in> set l1
         | d \<Rightarrow> (Log, [S ''Request Data:'', D d]) \<in> set l1)"
    using request_logging_console [of ?c w] by blast
  let ?w1 = "(snd (request_logging ?c w))\<lparr>sent := sent w @ [?c], srv := snd (serve (srv w) ?c)\<rparr>"
  have c1: "console ?w1 = console w @ l1" using l1(1) by simp
  show ?thesis
  proof (cases "fst (serve (srv w) ?c)")
    case (Responds r)
    show ?thesis
    proof (cases "validateStatus (status r)")
      case True
      obtain l2 where l2: "console (snd (response_logging r ?w1)) = console ?w1 @ l2"
        "(Log, [S ''Response Data:'', V (resp_data r)]) \<in> set l2"
        using response_logging_console [of r ?w1] by blast
      have "console (snd (api_request serve cfg w)) = console w @ (l1 @ l2)"
        using Responds True l2(1) c1 by (simp add: api_request_eq Let_def)
      with l1 l2 Responds True show ?thesis
        by (intro exI [of _ "l1 @ l2"]) (auto split: body.splits)
    next
      case False
      obtain l2 where l2: "console (snd (reject (status_error r) ?w1)) = console ?w1 @ l2"
        "(Err, [S ''Error Data:'', V (resp_data r)]) \<in> set l2"
        using reject_console [of "status_error r" ?w1] by (auto simp: status_error_def)
      have "console (snd (api_request serve cfg w)) = console w @ (l1 @ l2)"
        using Responds False l2(1) c1 by (simp add: api_request_eq Let_def)
      with l1 l2 Responds False show ?thesis
        by (intro exI [of _ "l1 @ l2"]) (auto split: body.splits)
    qed
  next
    case NetworkError
    obtain l2 where l2: "console (snd (reject network_error ?w1)) = console ?w1 @ l2"
      using reject_console [of network_error ?w1] by blast
    have "console (snd (api_request serve cfg w)) = console w @ (l1 @ l2)"
      using NetworkError l2(1) c1 by (simp add: api_request_eq Let_def)
    with l1 NetworkError show ?thesis
      by (intro exI [of _ "l1 @ l2"]) (auto split: body.splits)
  qed
qed

lemma outgoing_console [simp]: "outgoing cfg (w\<lparr>console := x\<rparr>) = outgoing cfg w"
  by (rule outgoing_storage) simp

section \<open>How \<open>login\<close> runs\<close>

lemma truthy_get_prop: "truthy d \<Longrightarrow> \<exists>v. get_prop d k = Inr v"
  by (cases d) auto

lemma login_catch_frame:
  "localStorage (login_catch e w) = localStorage w"
  "href (login_catch e w) = href w"
  "user (login_catch e w) = user w"
  "loading (login_catch e w) = loading w"
  "navigations (login_catch e w) = navigations w"
  "sent (login_catch e w) = sent w"
  "srv (login_catch e w) = srv w"
  by (simp_all add: login_catch_def console_error_def Let_def split: option.splits)

lemma login_catch_console: "\<exists>ls. console (login_catch e w) = console w @ ls"
  by (simp add: login_catch_def console_error_def Let_def split: option.splits)

lemma login_invalid_fst: "fst (login_invalid d w) = Inl (new_Error ''Invalid login response format'')"
  by (simp add: login_invalid_def Let_def)

lemma login_invalid_frame:
  "localStorage (snd (login_invalid d w)) = localStorage w"
  "href (snd (login_invalid d w)) = href w"
  "user (snd (login_invalid d w)) = user w"
  "loading (snd (login_invalid d w)) = loading w"
  "navigations (snd (login_invalid d w)) = navigations w"
  "sent (snd (login_invalid d w)) = sent w"
  "srv (snd (login_invalid d w)) = srv w"
  by (simp_all add: login_invalid_def Let_def login_catch_frame console_error_def)

lemma login_invalid_console: "\<exists>ls. console (snd (login_invalid d w)) = console w @ ls"
proof -
  obtain ls where "console (login_catch (new_Error ''Invalid login response format'')
      (console_error [S ''Invalid login response:'', V d] w)) =
      console (console_error [S ''Invalid login response:'', V d] w) @ ls"
    using login_catch_console by blast
  then show ?thesis by (simp add: login_invalid_def Let_def console_error_def)
qed


lemma has_access_token_cases:
  assumes "has_access_token d"
  obtains tok len where "truthy d" "get_prop d ''access_token'' = Inr tok" "truthy tok"
    "get_prop tok ''length'' = Inr len" "the_access_token d = tok"
proof -
  from assms have t: "truthy d" by (simp add: has_access_token_def)
  then obtain tok where tok: "get_prop d ''access_token'' = Inr tok"
    using truthy_get_prop by blast
  with assms have tt: "truthy tok" by (simp add: has_access_token_def)
  then obtain len where "get_prop tok ''length'' = Inr len"
    using truthy_get_prop by blast
  with t tok tt show ?thesis using that by (simp add: the_access_token_def)
qed

lemma login_resolved_ok:
  assumes "has_access_token (resp_data r)"
  shows "fst (login_resolved r w) = Inr True"
    and "localStorage (snd (login_resolved r w)) =
           (localStorage w)(''token'' \<mapsto> to_String (the_access_token (resp_data r)))"
    and "user (snd (login_resolved r w)) = Some \<lparr>token = the_access_token (resp_data r)\<rparr>"
    and "\<exists>ls. console (snd (login_resolved r w)) = console w @ ls"
proof -
  from assms obtain tok len where h: "truthy (resp_data r)"
    "get_prop (resp_data r) ''access_token'' = Inr tok" "truthy tok"
    "get_prop tok ''length'' = Inr len" "the_access_token (resp_data r) = tok"
    by (rule has_access_token_cases)
  show "fst (login_resolved r w) = Inr True"
    using h by (simp add: login_resolved_def Let_def)
  show "localStorage (snd (login_resolved r w)) =
           (localStorage w)(''token'' \<mapsto> to_String (the_access_token (resp_data r)))"
    using h by (simp add: login_resolved_def Let_def console_log_def setItem_def)
  show "user (snd (login_resolved r w)) = Some \<lparr>token = the_access_token (resp_data r)\<rparr>"
    using h by (simp add: login_resolved_def Let_def console_log_def setItem_def)
  show "\<exists>ls. console (snd (login_resolved r w)) = console w @ ls"
    using h by (simp add: login_resolved_def Let_def console_log_def setItem_def)
qed

lemma login_resolved_invalid:
  assumes "\<not> has_access_token (resp_data r)"
  shows "login_resolved r w =
           login_invalid (resp_data r)
             (console_log
                [S ''Response received:'',
                 V (JObj [(''status'', JNum (dec (status r))),
                          (''statusText'', JStr (statusText r)),
                          (''headers'', headers_obj (resp_headers r)),
                          (''data'', resp_data r)])] w)"
proof (cases "truthy (resp_data r)")
  case False
  then show ?thesis by (simp add: login_resolved_def Let_def)
next
  case True
  then obtain tok where tok: "get_prop (resp_data r) ''access_token'' = Inr tok"
    using truthy_get_prop by blast
  with assms True have "\<not> truthy tok" by (simp add: has_access_token_def)
  with True tok show ?thesis by (simp add: login_resolved_def Let_def)
qed

lemma login_resolved_bad:
  assumes "\<not> has_access_token (resp_data r)"
  shows "fst (login_resolved r w) = Inl (new_Error ''Invalid login response format'')"
    and "localStorage (snd (login_resolved r w)) = localStorage w"
    and "user (snd (login_resolved r w)) = user w"
    and "\<exists>ls. console (snd (login_resolved r w)) = console w @ ls"
proof -
  note eq = login_resolved_invalid [OF assms, of w]
  show "fst (login_resolved r w) = Inl (new_Error ''Invalid login response format'')"
    by (simp add: eq login_invalid_fst)
  show "localStorage (snd (login_resolved r w)) = localStorage w"
    by (simp add: eq login_invalid_frame console_log_def)
  show "user (snd (login_resolved r w)) = user w"
    by (simp add: eq login_invalid_frame console_log_def)
  obtain ls where "console (snd (login_resolved r w)) =
      console (console_log
                [S ''Response received:'',
                 V (JObj [(''status'', JNum (dec (status r))),
                          (''statusText'', JStr (statusText r)),
                          (''headers'', headers_obj (resp_headers r)),
                          (''data'', resp_data r)])] w) @ ls"
    unfolding eq using login_invalid_console by blast
  then show "\<exists>ls. console (snd (login_resolved r w)) = console w @ ls"
    by (simp add: console_log_def)
qed

lemma login_resolved_frame:
  "href (snd (login_resolved r w)) = href w"
  "loading (snd (login_resolved r w)) = loading w"
  "navigations (snd (login_resolved r w)) = navigations w"
  "sent (snd (login_resolved r w)) = sent w"
  "srv (snd (login_resolved r w)) = srv w"
proof -
  have "href (snd (login_resolved r w)) = href w \<and>
    loading (snd (login_resolved r w)) = loading w \<and>
    navigations (snd (login_resolved r w)) = navigations w \<and>
    sent (snd (login_resolved r w)) = sent w \<and>
    srv (snd (login_resolved r w)) = srv w"
  proof (cases "has_access_token (resp_data r)")
    case True
    then obtain tok len where h: "truthy (resp_data r)"
      "get_prop (resp_data r) ''access_token'' = Inr tok" "truthy tok"
      "get_prop tok ''length'' = Inr len" "the_access_token (resp_data r) = tok"
      by (rule has_access_token_cases)
    then show ?thesis
      by (simp add: login_resolved_def Let_def console_log_def setItem_def)
  next
    case False
    show ?thesis
      by (simp add: login_resolved_invalid [OF False] login_invalid_frame console_log_def)
  qed
  then show "href (snd (login_resolved r w)) = href w"
    "loading (snd (login_resolved r w)) = loading w"
    "navigations (snd (login_resolved r w)) = navigations w"
    "sent (snd (login_resolved r w)) = sent w"
    "srv (snd (login_resolved r w)) = srv w"
    by simp_all
qed

lemma login_eq:
  "login serve u p w =
     (let a = api_request serve (login_config u p) (w\<lparr>console := console w @ login_prelude u p\<rparr>)
      in case fst a of
           Inl error \<Rightarrow> (Inl error, login_catch error (snd a))
         | Inr response \<Rightarrow> login_resolved response (snd a))"
proof -
  have W: "console_log [S ''Sending request to:'', S ''/login'']
             (log_entries [(''username'', u), (''password'', p), (''grant_type'', ''password'')]
               (console_log [S ''FormData contents:'']
                 (console_log [S ''Creating FormData...'']
                   (console_log [S ''=== Login Flow Start ===''] w)))) =
           w\<lparr>console := console w @ login_prelude u p\<rparr>"
    by (simp add: log_entries_eq console_log_def login_prelude_def)
  show ?thesis
    unfolding login_def api_post_def Let_def case_prod_beta W login_config_def
    by (rule refl)
qed

lemma login_frame:
  "sent (snd (login serve u p w)) = sent w @ [outgoing (login_config u p) w]"
  "srv (snd (login serve u p w)) = snd (serve (srv w) (outgoing (login_config u p) w))"
  "loading (snd (login serve u p w)) = loading w"
  "navigations (snd (login serve u p w)) = navigations w"
  by (simp_all add: login_eq Let_def login_catch_frame login_resolved_frame api_request_frame
        split: sum.splits)

lemma login_on_token:
  assumes "fst (serve (srv w) (outgoing (login_config u p) w)) = Responds r"
    and "validateStatus (status r)" and "has_access_token (resp_data r)"
  shows "fst (login serve u p w) = Inr True"
    and "localStorage (snd (login serve u p w)) =
           (localStorage w)(''token'' \<mapsto> to_String (the_access_token (resp_data r)))"
    and "user (snd (login serve u p w)) = Some \<lparr>token = the_access_token (resp_data r)\<rparr>"
  using assms
  by (simp_all add: login_eq Let_def api_request_resolved login_resolved_ok)

lemma login_on_no_token:
  assumes "fst (serve (srv w) (outgoing (login_config u p) w)) = Responds r"
    and "validateStatus (status r)" and "\<not> has_access_token (resp_data r)"
  shows "fst (login serve u p w) = Inl (new_Error ''Invalid login response format'')"
    and "localStorage (snd (login serve u p w)) = localStorage w"
    and "user (snd (login serve u p w)) = user w"
  using assms
  by (simp_all add: login_eq Let_def api_request_resolved login_resolved_bad api_request_frame)

lemma login_on_status:
  assumes "fst (serve (srv w) (outgoing (login_config u p) w)) = Responds r"
    and "\<not> validateStatus (status r)"
  shows "fst (login serve u p w) = Inl (status_error r)"
    and "localStorage (snd (login serve u p w)) =
           (if status r = 401 then (localStorage w)(''token'' := None) else localStorage w)"
    and "href (snd (login serve u p w)) = (if status r = 401 then ''/login'' else href w)"
    and "user (snd (login serve u p w)) = user w"
  using assms
  by (simp_all add: login_eq Let_def api_request_rejected login_catch_frame api_request_frame)

lemma login_on_network:
  assumes "fst (serve (srv w) (outgoing (login_config u p) w)) = NetworkError"
  shows "fst (login serve u p w) = Inl network_error"
    and "localStorage (snd (login serve u p w)) = localStorage w"
    and "user (snd (login serve u p w)) = user w"
  using assms
  by (simp_all add: login_eq Let_def api_request_network login_catch_frame api_request_frame)

lemma outgoing_data: "data (outgoing cfg w) = data cfg"
  by (simp add: outgoing_eq request_token_fst split: option.splits)

lemma outgoing_cases:
  "outgoing cfg w =
     (case localStorage w ''token'' of
        None \<Rightarrow> cfg
      | Some t \<Rightarrow>
          if t \<noteq> [] then
            cfg\<lparr>headers := AList.update ''Authorization'' (''Bearer '' @ t) (headers cfg)\<rparr>
          else cfg)"
  by (simp add: outgoing_eq request_token_fst)

lemma headers_obj_prop:
  "get_prop (headers_obj hs) k =
     Inr (case map_of hs k of None \<Rightarrow> JUndefined | Some v \<Rightarrow> JStr v)"
  by (induction hs) (auto simp: headers_obj_def)

lemma login_console_api:
  "set (console (snd (api_request serve (login_config u p)
          (w\<lparr>console := console w @ login_prelude u p\<rparr>)))) \<subseteq>
   set (console (snd (login serve u p w)))"
proof -
  let ?a = "api_request serve (login_config u p) (w\<lparr>console := console w @ login_prelude u p\<rparr>)"
  show ?thesis
  proof (cases "fst ?a")
    case (Inl e)
    obtain ls where "console (login_catch e (snd ?a)) = console (snd ?a) @ ls"
      using login_catch_console by blast
    with Inl show ?thesis by (simp add: login_eq Let_def)
  next
    case (Inr r)
    have "\<exists>ls. console (snd (login_resolved r (snd ?a))) = console (snd ?a) @ ls"
      by (cases "has_access_token (resp_data r)")
         (simp_all add: login_resolved_ok login_resolved_bad)
    then obtain ls where "console (snd (login_resolved r (snd ?a))) = console (snd ?a) @ ls"
      by blast
    with Inr show ?thesis by (simp add: login_eq Let_def)
  qed
qed

lemma api_request_console_mono:
  "set (console w) \<subseteq> set (console (snd (api_request serve cfg w)))"
  using api_request_console [of serve cfg w] by auto

lemma login_console_prelude:
  "set (login_prelude u p) \<subseteq> set (console (snd (login serve u p w)))"
proof -
  have "set (login_prelude u p) \<subseteq> set (console (w\<lparr>console := console w @ login_prelude u p\<rparr>))"
    by simp
  also have "\<dots> \<subseteq> set (console (snd (api_request serve (login_config u p)
          (w\<lparr>console := console w @ login_prelude u p\<rparr>))))"
    by (rule api_request_console_mono)
  also note login_console_api
  finally show ?thesis .
qed

section \<open>How the provider mounts\<close>

lemma mount_eq:
  "mount w =
     w\<lparr>user := (case localStorage w ''token'' of
                   None \<Rightarrow> None
                 | Some t \<Rightarrow> if t \<noteq> [] then Some \<lparr>token = JStr t\<rparr> else None),
        loading := False\<rparr>"
  by (simp add: mount_def AuthProvider_effect_def AuthProvider_init_def getItem_def Let_def
        split: option.splits)

section \<open>How \<open>register\<close> runs\<close>

lemma register_eq:
  "register serve u p w =
     (let a = api_request serve (register_config u p)
                (console_log [S ''Starting registration request with:'',
                              V (JObj [(''username'', JStr u)])] w)
      in case fst a of
           Inl error \<Rightarrow> (Inl error, register_catch error (snd a))
         | Inr response \<Rightarrow>
             (let l = login serve u p (console_log [S ''Registration successful''] (snd a))
              in case fst l of
                   Inr loginSuccess \<Rightarrow> (Inr loginSuccess, snd l)
                 | Inl loginError \<Rightarrow>
                     (Inl loginError,
                      register_catch loginError
                        (console_error [S ''Post-registration login failed:'', E loginError]
                           (snd l)))))"
  unfolding register_def api_post_def Let_def case_prod_beta register_config_def
  by (rule refl)

lemma console_log_frame:
  "localStorage (console_log a w) = localStorage w"
  "href (console_log a w) = href w"
  "user (console_log a w) = user w"
  "loading (console_log a w) = loading w"
  "navigations (console_log a w) = navigations w"
  "sent (console_log a w) = sent w"
  "srv (console_log a w) = srv w"
  "localStorage (console_error a w) = localStorage w"
  "href (console_error a w) = href w"
  "user (console_error a w) = user w"
  "loading (console_error a w) = loading w"
  "navigations (console_error a w) = navigations w"
  "sent (console_error a w) = sent w"
  "srv (console_error a w) = srv w"
  by (simp_all add: console_log_def console_error_def)

lemma register_catch_frame:
  "localStorage (register_catch e w) = localStorage w"
  "href (register_catch e w) = href w"
  "user (register_catch e w) = user w"
  "loading (register_catch e w) = loading w"
  "navigations (register_catch e w) = navigations w"
  "sent (register_catch e w) = sent w"
  "srv (register_catch e w) = srv w"
  by (simp_all add: register_catch_def console_error_def)

lemma api_request_Inr_storage:
  "fst (api_request serve cfg w) = Inr r \<Longrightarrow>
     localStorage (snd (api_request serve cfg w)) = localStorage w"
  by (auto simp: api_request_eq Let_def response_logging_frame request_logging_frame
        split: outcome.splits if_splits)

lemma register_start:
  "outgoing c (console_log a w) = outgoing c w"
  by (rule outgoing_storage) (simp add: console_log_frame)

section \<open>What reaches the console\<close>

lemma login_console_mono: "set (console w) \<subseteq> set (console (snd (login serve u p w)))"
proof -
  have "set (console w) \<subseteq> set (console (w\<lparr>console := console w @ login_prelude u p\<rparr>))"
    by simp
  also have "\<dots> \<subseteq> set (console (snd (api_request serve (login_config u p)
          (w\<lparr>console := console w @ login_prelude u p\<rparr>))))"
    by (rule api_request_console_mono)
  also note login_console_api
  finally show ?thesis .
qed

lemma login_console_request:
  "(Log, [S ''Request Data:'',
          D (URLSearchParams [(''username'', u), (''password'', p),
                              (''grant_type'', ''password'')])])
     \<in> set (console (snd (login serve u p w)))"
proof -
  let ?w0 = "w\<lparr>console := console w @ login_prelude u p\<rparr>"
  have d: "data (outgoing (login_config u p) ?w0) =
             URLSearchParams [(''username'', u), (''password'', p), (''grant_type'', ''password'')]"
    by (simp add: outgoing_data login_config_def)
  from api_request_console [of serve "login_config u p" ?w0]
  have "(Log, [S ''Request Data:'',
          D (URLSearchParams [(''username'', u), (''password'', p),
                              (''grant_type'', ''password'')])])
     \<in> set (console (snd (api_request serve (login_config u p) ?w0)))"
    unfolding d by auto
  with login_console_api [of serve u p w] show ?thesis by blast
qed

lemma register_console_api:
  "set (console (snd (api_request serve (register_config u p)
          (console_log [S ''Starting registration request with:'',
                        V (JObj [(''username'', JStr u)])] w)))) \<subseteq>
   set (console (snd (register serve u p w)))"
proof -
  let ?a = "api_request serve (register_config u p)
              (console_log [S ''Starting registration request with:'',
                            V (JObj [(''username'', JStr u)])] w)"
  let ?l = "login serve u p (console_log [S ''Registration successful''] (snd ?a))"
  show ?thesis
  proof (cases "fst ?a")
    case (Inl e)
    then show ?thesis
      by (auto simp: register_eq Let_def register_catch_def console_error_def)
  next
    case (Inr r)
    have m: "set (console (snd ?a)) \<subseteq> set (console (snd ?l))"
      using login_console_mono [of "console_log [S ''Registration successful''] (snd ?a)" serve u p]
      by (auto simp: console_log_def)
    show ?thesis
    proof (cases "fst ?l")
      case ok: (Inr b)
      with Inr m show ?thesis by (simp add: register_eq Let_def)
    next
      case bad: (Inl e)
      with Inr m show ?thesis
        by (auto simp: register_eq Let_def register_catch_def console_error_def)
    qed
  qed
qed

lemma register_console_request:
  "(Log, [S ''Request Data:'',
          D (Plain (JObj [(''username'', JStr u), (''password'', JStr p)]))])
     \<in> set (console (snd (register serve u p w)))"
proof -
  let ?w0 = "console_log [S ''Starting registration request with:'',
                          V (JObj [(''username'', JStr u)])] w"
  have d: "data (outgoing (register_config u p) ?w0) =
             Plain (JObj [(''username'', JStr u), (''password'', JStr p)])"
    by (simp add: outgoing_data register_config_def)
  from api_request_console [of serve "register_config u p" ?w0]
  have "(Log, [S ''Request Data:'',
          D (Plain (JObj [(''username'', JStr u), (''password'', JStr p)]))])
     \<in> set (console (snd (api_request serve (register_config u p) ?w0)))"
    unfolding d by auto
  with register_console_api [of serve u p w] show ?thesis by blast
qed

lemma login_Inr_True:
  assumes "fst (login serve u p w) = Inr True"
  obtains r where "fst (serve (srv w) (outgoing (login_config u p) w)) = Responds r"
    "validateStatus (status r)" "has_access_token (resp_data r)"
proof (cases "fst (serve (srv w) (outgoing (login_config u p) w))")
  case (Responds r)
  show ?thesis
  proof (cases "validateStatus (status r)")
    case True
    show ?thesis
    proof (cases "has_access_token (resp_data r)")
      case yes: True
      with Responds True show ?thesis by (rule that)
    next
      case no: False
      with assms Responds True show ?thesis by (simp add: login_on_no_token)
    qed
  next
    case False
    with assms Responds show ?thesis by (simp add: login_on_status)
  qed
next
  case NetworkError
  with assms show ?thesis by (simp add: login_on_network)
qed

section \<open>How the forms submit\<close>

lemma validatePassword_iff: "validatePassword p = [] \<longleftrightarrow> password_rule p"
  by (auto simp: validatePassword_def password_rule_def test_some_def)

lemma validateUsername_iff: "validateUsername u = [] \<longleftrightarrow> username_rule u"
proof -
  have "username_char = (\<lambda>c. upper c \<or> lower c \<or> digit c \<or> c = CHR ''_'' \<or> c = CHR ''-'')"
    by (auto simp: username_char_def)
  then show ?thesis
    by (auto simp: validateUsername_def username_rule_def test_all1_def)
qed

lemma Login_handleSubmit_rejected:
  assumes "validateUsername (formData_username st) \<noteq> [] \<or>
           validatePassword (formData_password st) \<noteq> []"
  shows "Login_handleSubmit serve st w =
           (Inr (),
            st\<lparr>errors_username := validateUsername (formData_username st),
               errors_password := validatePassword (formData_password st),
               errors_form := JStr []\<rparr>, w)"
  using assms by (simp add: Login_handleSubmit_def Let_def)

lemma Login_handleSubmit_accepted:
  assumes "validateUsername (formData_username st) = []"
    and "validatePassword (formData_password st) = []"
  shows "Login_handleSubmit serve st w =
     (let l = login serve (formData_username st) (formData_password st) w
      in case fst l of
           Inr result \<Rightarrow>
             (Inr (), st\<lparr>errors_form := JStr [], isLoading := False\<rparr>,
              if result then (snd l)\<lparr>navigations := navigations (snd l) @ [''/tasks'']\<rparr>
              else snd l)
         | Inl error \<Rightarrow>
             (case Login_errorMessage error of
                Inl e \<Rightarrow>
                  (Inl e, st\<lparr>errors_form := JStr [], isLoading := False\<rparr>,
                   console_error [S ''Login error:'', E error] (snd l))
              | Inr errorMessage \<Rightarrow>
                  (Inr (), st\<lparr>errors_form := errorMessage, isLoading := False\<rparr>,
                   console_error [S ''Login error:'', E error] (snd l))))"
  using assms
  by (simp add: Login_handleSubmit_def Let_def case_prod_beta split: sum.splits)

lemma Login_handleSubmit_sent:
  assumes "validateUsername (formData_username st) = []"
    and "validatePassword (formData_password st) = []"
  shows "sent (snd (snd (Login_handleSubmit serve st w))) =
           sent w @ [outgoing (login_config (formData_username st) (formData_password st)) w]"
  by (simp add: Login_handleSubmit_accepted [OF assms] Let_def login_frame console_log_frame
        split: sum.splits)

lemma Login_errorMessage_401:
  "status r = 401 \<Longrightarrow>
     Login_errorMessage (status_error r) = Inr (JStr ''Incorrect username or password'')"
  by (simp add: Login_errorMessage_def status_error_def)

lemma alice_accepted: "validateUsername ''alice'' = []" "validatePassword ''Abcdef12'' = []"
  by (simp_all add: validateUsername_def validatePassword_def test_all1_def test_some_def
        username_char_def upper_def lower_def digit_def in_range_def)

lemma Register_handleSubmit_rejected:
  assumes "validateUsername (reg_username st) \<noteq> [] \<or> validatePassword (reg_password st) \<noteq> []"
  shows "snd (snd (Register_handleSubmit serve st w)) =
           console_log [S ''inside handleSubmit...''] w"
    and "fst (Register_handleSubmit serve st w) = Inr ()"
  using assms by (auto simp add: Register_handleSubmit_def Let_def)

section \<open>The claims\<close>

text \<open>
  C7. \<open>logout\<close> removes the entry \<open>token\<close> from \<open>localStorage\<close> and sets the user state
  to null, and changes nothing else: no request is sent and the state of the server is
  what it was, so the server answers every later request as it would have before (a
  token issued earlier is not revoked).
\<close>

theorem logout_frame:
  "logout w = w\<lparr>localStorage := (localStorage w)(''token'' := None), user := None\<rparr> \<and>
   localStorage (logout w) ''token'' = None \<and> user (logout w) = None \<and>
   sent (logout w) = sent w \<and> srv (logout w) = srv w \<and>
   serve (srv (logout w)) c = serve (srv w) c \<and>
   console (logout w) = console w \<and> href (logout w) = href w \<and>
   loading (logout w) = loading w \<and> navigations (logout w) = navigations w"
  by (simp add: logout_def removeItem_def)

text \<open>
  C9. When the server answers a call with status 401, the call is rejected with the error
  that holds the response, the entry \<open>token\<close> is removed from \<open>localStorage\<close> and the
  page address is set to \<open>/login\<close>; when it answers with any other error status, the call
  is rejected the same way and \<open>localStorage\<close> is left as it was.
\<close>

theorem unauthorized_clears_token:
  assumes "fst (serve (srv w) (outgoing cfg w)) = Responds r"
  shows "(status r = 401 \<longrightarrow>
            (\<exists>e. fst (api_request serve cfg w) = Inl e \<and> err_response e = Some r) \<and>
            localStorage (snd (api_request serve cfg w)) = (localStorage w)(''token'' := None) \<and>
            href (snd (api_request serve cfg w)) = ''/login'') \<and>
         (\<not> validateStatus (status r) \<and> status r \<noteq> 401 \<longrightarrow>
            (\<exists>e. fst (api_request serve cfg w) = Inl e \<and> err_response e = Some r) \<and>
            localStorage (snd (api_request serve cfg w)) = localStorage w)"
proof -
  have "\<not> validateStatus 401" by (simp add: validateStatus_def)
  then show ?thesis
    using assms by (auto simp: api_request_rejected status_error_def)
qed

theorem unauthorized_clears_token_witness:
  "localStorage (snd (api_request (answering (Responds (denial ''Could not validate credentials'')))
       tasks_config (fresh\<lparr>localStorage := [''token'' \<mapsto> ''abc.def.ghi'']\<rparr>))) ''token'' = None \<and>
   href (snd (api_request (answering (Responds (denial ''Could not validate credentials'')))
       tasks_config (fresh\<lparr>localStorage := [''token'' \<mapsto> ''abc.def.ghi'']\<rparr>))) = ''/login'' \<and>
   localStorage (snd (api_request (answering (Responds failure))
       tasks_config (fresh\<lparr>localStorage := [''token'' \<mapsto> ''abc.def.ghi'']\<rparr>))) ''token'' =
     Some ''abc.def.ghi''"
  using unauthorized_clears_token [of "answering (Responds (denial ''Could not validate credentials''))"
          "fresh\<lparr>localStorage := [''token'' \<mapsto> ''abc.def.ghi'']\<rparr>" tasks_config
          "denial ''Could not validate credentials''"]
        unauthorized_clears_token [of "answering (Responds failure)"
          "fresh\<lparr>localStorage := [''token'' \<mapsto> ''abc.def.ghi'']\<rparr>" tasks_config failure]
  by (simp add: answering_def denial_def failure_def fresh_def validateStatus_def)

text \<open>
  C4. \<open>login\<close> returns true exactly when the call resolves with a response whose body has
  a non-empty \<open>access_token\<close> field, and otherwise throws. On a resolved call with such a
  body it stores the token under \<open>token\<close> in \<open>localStorage\<close> and sets the user state to
  hold it; on a resolved call whose body or field is absent it throws ``Invalid login
  response format'' and stores nothing.
\<close>

theorem login_succeeds_iff:
  "(fst (login serve u p w) = Inr True \<longleftrightarrow>
      (\<exists>r. fst (serve (srv w) (outgoing (login_config u p) w)) = Responds r \<and>
           validateStatus (status r) \<and> has_access_token (resp_data r))) \<and>
   (fst (login serve u p w) = Inr True \<or> (\<exists>e. fst (login serve u p w) = Inl e)) \<and>
   (\<forall>r. fst (serve (srv w) (outgoing (login_config u p) w)) = Responds r \<and>
        validateStatus (status r) \<longrightarrow>
        (if has_access_token (resp_data r) then
           fst (login serve u p w) = Inr True \<and>
           localStorage (snd (login serve u p w)) =
             (localStorage w)(''token'' \<mapsto> to_String (the_access_token (resp_data r))) \<and>
           user (snd (login serve u p w)) = Some \<lparr>token = the_access_token (resp_data r)\<rparr>
         else
           fst (login serve u p w) = Inl (new_Error ''Invalid login response format'') \<and>
           localStorage (snd (login serve u p w)) = localStorage w \<and>
           user (snd (login serve u p w)) = user w))"
proof (cases "fst (serve (srv w) (outgoing (login_config u p) w))")
  case (Responds r)
  show ?thesis
  proof (cases "validateStatus (status r)")
    case True
    show ?thesis
    proof (cases "has_access_token (resp_data r)")
      case yes: True
      show ?thesis
        using Responds True yes by (simp add: login_on_token)
    next
      case no: False
      show ?thesis
        using Responds True no by (simp add: login_on_no_token)
    qed
  next
    case False
    then show ?thesis
      using Responds by (simp add: login_on_status)
  qed
next
  case NetworkError
  then show ?thesis by (simp add: login_on_network)
qed


theorem login_succeeds_iff_witness:
  "fst (login (answering (Responds token_response)) ''alice'' ''Abcdef12'' fresh) = Inr True \<and>
   localStorage (snd (login (answering (Responds token_response)) ''alice'' ''Abcdef12'' fresh))
     ''token'' = Some ''abc.def.ghi'' \<and>
   user (snd (login (answering (Responds token_response)) ''alice'' ''Abcdef12'' fresh)) =
     Some \<lparr>token = JStr ''abc.def.ghi''\<rparr> \<and>
   fst (login (answering (Responds (token_response\<lparr>resp_data := JObj [(''access_token'', JStr [])]\<rparr>)))
          ''alice'' ''Abcdef12'' fresh) = Inl (new_Error ''Invalid login response format'') \<and>
   localStorage (snd (login (answering (Responds (token_response\<lparr>resp_data := JObj [(''access_token'', JStr [])]\<rparr>)))
          ''alice'' ''Abcdef12'' fresh)) ''token'' = None"
  using login_succeeds_iff [of "answering (Responds token_response)" "''alice''" "''Abcdef12''" fresh]
    login_succeeds_iff [of "answering (Responds (token_response\<lparr>resp_data := JObj [(''access_token'', JStr [])]\<rparr>))"
       "''alice''" "''Abcdef12''" fresh]
  by (simp add: answering_def token_response_def has_access_token_def the_access_token_def
        validateStatus_def fresh_def)

text \<open>
  C5, as stated: whenever a string is stored under \<open>token\<close>, the request carries
  \<open>Authorization: Bearer <token>\<close>. It fails for the empty string, which \<open>if (token)\<close>
  takes for no token: with the empty string stored, the request that leaves is the
  caller's own and has no \<open>Authorization\<close> header.
\<close>

theorem authorization_header_counterexample:
  "localStorage (fresh\<lparr>localStorage := [''token'' \<mapsto> []]\<rparr>) ''token'' = Some [] \<and>
   sent (snd (api_request (answering (Responds failure)) tasks_config
           (fresh\<lparr>localStorage := [''token'' \<mapsto> []]\<rparr>))) = [tasks_config] \<and>
   map_of (headers tasks_config) ''Authorization'' = None"
  by (simp add: api_request_frame outgoing_cases fresh_def tasks_config_def default_headers_def)

text \<open>
  C5, amended: the request that leaves is the caller's configuration as the interceptors
  return it. If a non-empty string \<open>t\<close> is stored under \<open>token\<close>, that is the caller's
  configuration with the header \<open>Authorization\<close> set to \<open>Bearer t\<close>; if no entry or the
  empty string is stored, it is the caller's configuration unchanged.
\<close>

theorem authorization_header:
  "sent (snd (api_request serve cfg w)) = sent w @ [outgoing cfg w] \<and>
   (\<forall>t. localStorage w ''token'' = Some t \<and> t \<noteq> [] \<longrightarrow>
        outgoing cfg w =
          cfg\<lparr>headers := AList.update ''Authorization'' (''Bearer '' @ t) (headers cfg)\<rparr> \<and>
        map_of (headers (outgoing cfg w)) ''Authorization'' = Some (''Bearer '' @ t)) \<and>
   (localStorage w ''token'' = None \<or> localStorage w ''token'' = Some [] \<longrightarrow>
        outgoing cfg w = cfg)"
  by (auto simp: api_request_frame outgoing_cases map_of_update_same)

theorem authorization_header_witness:
  "sent (snd (api_request (answering (Responds failure)) tasks_config
           (fresh\<lparr>localStorage := [''token'' \<mapsto> ''abc.def.ghi'']\<rparr>))) =
     [tasks_config\<lparr>headers := [(''Accept'', ''application/json, text/plain, */*''),
                                 (''Content-Type'', ''application/json''),
                                 (''Authorization'', ''Bearer abc.def.ghi'')]\<rparr>] \<and>
   sent (snd (api_request (answering (Responds failure)) tasks_config fresh)) = [tasks_config]"
  using authorization_header [of "answering (Responds failure)" tasks_config
          "fresh\<lparr>localStorage := [''token'' \<mapsto> ''abc.def.ghi'']\<rparr>"]
        authorization_header [of "answering (Responds failure)" tasks_config fresh]
  by (simp add: fresh_def tasks_config_def default_headers_def)

text \<open>
  C8, as stated: on mount, any string at all stored under \<open>token\<close> makes an
  authenticated user. It fails for the empty string: the user stays null and
  \<open>ProtectedRoute\<close> redirects to \<open>/login\<close>.
\<close>

theorem mount_trusts_token_counterexample:
  "localStorage (fresh\<lparr>localStorage := [''token'' \<mapsto> []]\<rparr>) ''token'' = Some [] \<and>
   user (mount (fresh\<lparr>localStorage := [''token'' \<mapsto> []]\<rparr>)) = None \<and>
   ProtectedRoute (mount (fresh\<lparr>localStorage := [''token'' \<mapsto> []]\<rparr>)) = Navigate ''/login''"
  by (simp add: mount_eq ProtectedRoute_def fresh_def)

text \<open>
  C8, amended: on mount, every non-empty string stored under \<open>token\<close> becomes the token
  of an authenticated user and \<open>ProtectedRoute\<close> renders its children, whatever the string
  is; no request is sent and the server is not consulted. With no entry or the empty
  string the user is null and \<open>ProtectedRoute\<close> redirects to \<open>/login\<close>. Once a call is
  answered with status 401 the entry is gone, and the provider, mounted again, has no
  user.
\<close>

theorem mount_trusts_token:
  "(\<forall>t. localStorage w ''token'' = Some t \<and> t \<noteq> [] \<longrightarrow>
        user (mount w) = Some \<lparr>token = JStr t\<rparr> \<and> ProtectedRoute (mount w) = Children) \<and>
   (localStorage w ''token'' = None \<or> localStorage w ''token'' = Some [] \<longrightarrow>
        user (mount w) = None \<and> ProtectedRoute (mount w) = Navigate ''/login'') \<and>
   loading (mount w) = False \<and> sent (mount w) = sent w \<and> srv (mount w) = srv w \<and>
   localStorage (mount w) = localStorage w \<and>
   (\<forall>r. fst (serve (srv (mount w)) (outgoing cfg (mount w))) = Responds r \<and> status r = 401 \<longrightarrow>
        ProtectedRoute (mount (snd (api_request serve cfg (mount w)))) = Navigate ''/login'')"
proof -
  have v: "\<not> validateStatus 401" by (simp add: validateStatus_def)
  have "ProtectedRoute (mount (snd (api_request serve cfg (mount w)))) = Navigate ''/login''"
    if "fst (serve (srv (mount w)) (outgoing cfg (mount w))) = Responds r" "status r = 401" for r
    using that v api_request_rejected(2) [of serve "mount w" cfg r]
    by (simp add: mount_eq [of "snd (api_request serve cfg (mount w))"] ProtectedRoute_def)
  then show ?thesis
    by (auto simp: mount_eq ProtectedRoute_def)
qed

theorem mount_trusts_token_witness:
  "user (mount (fresh\<lparr>localStorage := [''token'' \<mapsto> ''forged'']\<rparr>)) =
     Some \<lparr>token = JStr ''forged''\<rparr> \<and>
   ProtectedRoute (mount (fresh\<lparr>localStorage := [''token'' \<mapsto> ''forged'']\<rparr>)) = Children \<and>
   ProtectedRoute (mount fresh) = Navigate ''/login'' \<and>
   ProtectedRoute (mount (snd (api_request (answering (Responds (denial ''Could not validate credentials'')))
      tasks_config (mount (fresh\<lparr>localStorage := [''token'' \<mapsto> ''forged'']\<rparr>))))) = Navigate ''/login''"
  using mount_trusts_token [of "fresh\<lparr>localStorage := [''token'' \<mapsto> ''forged'']\<rparr>"
          "answering (Responds (denial ''Could not validate credentials''))" tasks_config]
        mount_trusts_token [of fresh "answering (Responds failure)" tasks_config]
  by (simp add: fresh_def answering_def denial_def)

text \<open>
  C10. \<open>register\<close> posts the username and password to \<open>/register\<close>. When that call
  resolves, it calls \<open>login\<close> with the same username and password and its result is that
  login's result (its return value or its error), the two requests being the only ones
  sent. When the registration call is rejected, by an error status or for want of an
  answer, \<open>register\<close> throws that error and the registration request is the only one
  sent: no login is attempted.
\<close>

theorem register_then_login:
  "url (outgoing (register_config u p) w) = ''/register'' \<and>
   data (outgoing (register_config u p) w) =
     Plain (JObj [(''username'', JStr u), (''password'', JStr p)]) \<and>
   (\<forall>r. fst (serve (srv w) (outgoing (register_config u p) w)) = Responds r \<and>
        validateStatus (status r) \<longrightarrow>
        fst (register serve u p w) =
          fst (login serve u p
                 (console_log [S ''Registration successful'']
                    (snd (api_request serve (register_config u p)
                       (console_log [S ''Starting registration request with:'',
                                     V (JObj [(''username'', JStr u)])] w))))) \<and>
        localStorage (snd (register serve u p w)) =
          localStorage (snd (login serve u p
                 (console_log [S ''Registration successful'']
                    (snd (api_request serve (register_config u p)
                       (console_log [S ''Starting registration request with:'',
                                     V (JObj [(''username'', JStr u)])] w)))))) \<and>
        user (snd (register serve u p w)) =
          user (snd (login serve u p
                 (console_log [S ''Registration successful'']
                    (snd (api_request serve (register_config u p)
                       (console_log [S ''Starting registration request with:'',
                                     V (JObj [(''username'', JStr u)])] w)))))) \<and>
        sent (snd (register serve u p w)) =
          sent w @ [outgoing (register_config u p) w, outgoing (login_config u p) w]) \<and>
   (\<forall>r. fst (serve (srv w) (outgoing (register_config u p) w)) = Responds r \<and>
        \<not> validateStatus (status r) \<longrightarrow>
        fst (register serve u p w) = Inl (status_error r) \<and>
        sent (snd (register serve u p w)) = sent w @ [outgoing (register_config u p) w]) \<and>
   (fst (serve (srv w) (outgoing (register_config u p) w)) = NetworkError \<longrightarrow>
        fst (register serve u p w) = Inl network_error \<and>
        sent (snd (register serve u p w)) = sent w @ [outgoing (register_config u p) w])"
proof -
  let ?w0 = "console_log [S ''Starting registration request with:'',
                          V (JObj [(''username'', JStr u)])] w"
  let ?a = "api_request serve (register_config u p) ?w0"
  let ?w1 = "console_log [S ''Registration successful''] (snd ?a)"
  let ?l = "login serve u p ?w1"
  have s0: "sent (snd ?a) = sent w @ [outgoing (register_config u p) w]"
    by (simp add: api_request_frame register_start console_log_frame)
  have cfg: "url (outgoing (register_config u p) w) = ''/register'' \<and>
      data (outgoing (register_config u p) w) =
        Plain (JObj [(''username'', JStr u), (''password'', JStr p)])"
    by (simp add: outgoing_cases register_config_def split: option.splits)
  have ok: "fst (register serve u p w) = fst ?l \<and>
            localStorage (snd (register serve u p w)) = localStorage (snd ?l) \<and>
            user (snd (register serve u p w)) = user (snd ?l) \<and>
            sent (snd (register serve u p w)) =
              sent w @ [outgoing (register_config u p) w, outgoing (login_config u p) w]"
    if "fst (serve (srv w) (outgoing (register_config u p) w)) = Responds r"
      "validateStatus (status r)" for r
  proof -
    have "fst (serve (srv ?w0) (outgoing (register_config u p) ?w0)) = Responds r"
      using that(1) by (simp add: register_start console_log_frame)
    then have r: "fst ?a = Inr r" and "localStorage (snd ?a) = localStorage ?w0"
      using that(2) by (simp_all add: api_request_resolved)
    then have resolved: "localStorage (snd ?a) = localStorage w"
      by (simp add: console_log_frame)
    have o1: "outgoing (login_config u p) ?w1 = outgoing (login_config u p) w"
      by (rule outgoing_storage) (simp add: console_log_frame resolved)
    have s1: "sent ?w1 = sent w @ [outgoing (register_config u p) w]"
      using s0 by (simp add: console_log_frame)
    have sl: "sent (snd ?l) =
                sent w @ [outgoing (register_config u p) w, outgoing (login_config u p) w]"
      by (simp add: login_frame o1 s1)
    show ?thesis
    proof (cases "fst ?l")
      case (Inr b)
      with r sl show ?thesis by (simp add: register_eq Let_def)
    next
      case (Inl e)
      with r sl show ?thesis
        by (simp add: register_eq Let_def register_catch_frame console_log_frame)
    qed
  qed
  have bad: "fst (register serve u p w) = Inl (status_error r) \<and>
             sent (snd (register serve u p w)) = sent w @ [outgoing (register_config u p) w]"
    if "fst (serve (srv w) (outgoing (register_config u p) w)) = Responds r"
      "\<not> validateStatus (status r)" for r
  proof -
    have "fst (serve (srv ?w0) (outgoing (register_config u p) ?w0)) = Responds r"
      using that(1) by (simp add: register_start console_log_frame)
    then have "fst ?a = Inl (status_error r)"
      using that(2) by (simp add: api_request_rejected)
    with s0 show ?thesis by (simp add: register_eq Let_def register_catch_frame)
  qed
  have net: "fst (register serve u p w) = Inl network_error \<and>
             sent (snd (register serve u p w)) = sent w @ [outgoing (register_config u p) w]"
    if "fst (serve (srv w) (outgoing (register_config u p) w)) = NetworkError"
  proof -
    have "fst (serve (srv ?w0) (outgoing (register_config u p) ?w0)) = NetworkError"
      using that by (simp add: register_start console_log_frame)
    then have "fst ?a = Inl network_error"
      by (simp add: api_request_network)
    with s0 show ?thesis by (simp add: register_eq Let_def register_catch_frame)
  qed
  from cfg ok bad net show ?thesis by blast
qed

theorem register_then_login_witness:
  "fst (register (answering (Responds token_response)) ''alice'' ''Abcdef12'' fresh) = Inr True \<and>
   localStorage (snd (register (answering (Responds token_response)) ''alice'' ''Abcdef12'' fresh))
     ''token'' = Some ''abc.def.ghi'' \<and>
   map url (sent (snd (register (answering (Responds token_response)) ''alice'' ''Abcdef12'' fresh))) =
     [''/register'', ''/login''] \<and>
   fst (register (answering (Responds failure)) ''alice'' ''Abcdef12'' fresh) =
     Inl (status_error failure) \<and>
   map url (sent (snd (register (answering (Responds failure)) ''alice'' ''Abcdef12'' fresh))) =
     [''/register''] \<and>
   fst (register (answering NetworkError) ''alice'' ''Abcdef12'' fresh) = Inl network_error"
proof -
  let ?w1 = "console_log [S ''Registration successful'']
               (snd (api_request (answering (Responds token_response))
                  (register_config ''alice'' ''Abcdef12'')
                  (console_log [S ''Starting registration request with:'',
                                V (JObj [(''username'', JStr ''alice'')])] fresh)))"
  have p1: "fst (answering (Responds token_response) (srv ?w1)
                 (outgoing (login_config ''alice'' ''Abcdef12'') ?w1)) = Responds token_response"
    by (simp add: answering_def)
  have p2: "validateStatus (status token_response)"
    by (simp add: token_response_def validateStatus_def)
  have p3: "has_access_token (resp_data token_response)"
    by (simp add: token_response_def has_access_token_def)
  have p4: "to_String (the_access_token (resp_data token_response)) = ''abc.def.ghi''"
    by (simp add: token_response_def the_access_token_def)
  have l: "fst (login (answering (Responds token_response)) ''alice'' ''Abcdef12'' ?w1) = Inr True"
    "localStorage (snd (login (answering (Responds token_response)) ''alice'' ''Abcdef12'' ?w1))
       ''token'' = Some ''abc.def.ghi''"
    using login_on_token [of "answering (Responds token_response)" ?w1 "''alice''"
        "''Abcdef12''" token_response, OF p1 p2 p3] p4
    by simp_all
  show ?thesis
    using register_then_login [of "''alice''" "''Abcdef12''" fresh "answering (Responds token_response)"]
      register_then_login [of "''alice''" "''Abcdef12''" fresh "answering (Responds failure)"]
      register_then_login [of "''alice''" "''Abcdef12''" fresh "answering NetworkError"]
      l
    by (simp add: answering_def token_response_def failure_def validateStatus_def fresh_def
          outgoing_cases login_config_def register_config_def)
qed

text \<open>
  C1 says that no operation of the client writes the plaintext password to a log. The
  code does: every run of \<open>login\<close>, whatever the server answers, logs the line
  \<open>password: <password>\<close> from its loop over the form entries, and the request
  interceptor logs the body of the login call and of the registration call, password
  included. So does the run of \<open>login\<close> on \<open>alice\<close> and \<open>Abcdef12\<close>.
\<close>

theorem password_is_logged:
  "(Log, [S (''password: '' @ p)]) \<in> set (console (snd (login serve u p w))) \<and>
   (Log, [S ''Request Data:'',
          D (URLSearchParams [(''username'', u), (''password'', p),
                              (''grant_type'', ''password'')])])
     \<in> set (console (snd (login serve u p w))) \<and>
   (Log, [S ''Request Data:'',
          D (Plain (JObj [(''username'', JStr u), (''password'', JStr p)]))])
     \<in> set (console (snd (register serve u p w))) \<and>
   (Log, [S ''password: Abcdef12''])
     \<in> set (console (snd (login (answering (Responds token_response))
                              ''alice'' ''Abcdef12'' fresh)))"
proof -
  have "(Log, [S (''password: '' @ q)]) \<in> set (login_prelude v q)" for v q
    by (simp add: login_prelude_def)
  then have a: "(Log, [S (''password: '' @ q)]) \<in> set (console (snd (login sv v q x)))"
    for v q and sv :: "'b server" and x
    using login_console_prelude [of v q sv x] by blast
  from a [of "''Abcdef12''" "answering (Responds token_response)" "''alice''" fresh]
  have b: "(Log, [S ''password: Abcdef12''])
     \<in> set (console (snd (login (answering (Responds token_response))
                              ''alice'' ''Abcdef12'' fresh)))"
    by simp
  from a b login_console_request register_console_request show ?thesis
    by blast
qed

text \<open>
  C2, as stated: the headers that the request interceptor logs contain the
  \<open>Authorization\<close> bearer token when one is stored. It fails for the empty string, which
  \<open>if (token)\<close> takes for no token: with the empty string stored under \<open>token\<close>, the
  console of a call holds one line of request headers, and no \<open>Authorization\<close> in it.
\<close>

theorem api_call_is_logged_counterexample:
  "localStorage (fresh\<lparr>localStorage := [''token'' \<mapsto> []]\<rparr>) ''token'' = Some [] \<and>
   console (snd (api_request (answering NetworkError) tasks_config
                   (fresh\<lparr>localStorage := [''token'' \<mapsto> []]\<rparr>))) =
     [(Log, [S ''=== API Request Interceptor ==='']),
      (Log, [S ''Request URL:'', S ''/tasks'']),
      (Log, [S ''Request Method:'', S ''get'']),
      (Log, [S ''Request Headers:'',
             V (JObj [(''Accept'', JStr ''application/json, text/plain, */*''),
                      (''Content-Type'', JStr ''application/json'')])]),
      (Log, [S ''Request Data Type:'', S ''undefined'']),
      (Log, [S ''Request Data:'', D (Plain JUndefined)]),
      (Err, [S ''=== API Response Error ==='']),
      (Err, [S ''No response received:'', X XMLHttpRequest])]"
  by (simp add: api_request_eq outgoing_cases Let_def fresh_def tasks_config_def
        default_headers_def answering_def request_logging_def reject_def
        response_logging_error_def response_unauthorized_def on_401_def network_error_def
        headers_obj_def console_log_def console_error_def getItem_def)

text \<open>
  C2, amended: on every call through the api client the request interceptor logs the
  headers of the request exactly as it leaves and its data (the entries of a
  \<open>FormData\<close>, else the data itself). With a non-empty token stored the logged headers
  hold \<open>Authorization\<close> with \<open>Bearer\<close> and the token; with no entry or the empty string
  stored they are the caller's headers. When the server answers, the response
  interceptor logs the full response data, for a resolved call and for a rejected one.
  On a successful \<open>login\<close> the response data logged holds the \<open>access_token\<close> that is
  stored.
\<close>

theorem api_call_is_logged:
  "sent (snd (api_request serve cfg w)) = sent w @ [outgoing cfg w] \<and>
   (Log, [S ''Request Headers:'', V (headers_obj (headers (outgoing cfg w)))])
     \<in> set (console (snd (api_request serve cfg w))) \<and>
   (\<forall>t. localStorage w ''token'' = Some t \<and> t \<noteq> [] \<longrightarrow>
        get_prop (headers_obj (headers (outgoing cfg w))) ''Authorization'' =
          Inr (JStr (''Bearer '' @ t))) \<and>
   (localStorage w ''token'' = None \<or> localStorage w ''token'' = Some [] \<longrightarrow>
        headers (outgoing cfg w) = headers cfg) \<and>
   (case data cfg of
      FormData es \<Rightarrow>
        \<forall>(k, v) \<in> set es.
          (Log, [S (k @ '': '' @ v)]) \<in> set (console (snd (api_request serve cfg w)))
    | d \<Rightarrow> (Log, [S ''Request Data:'', D d]) \<in> set (console (snd (api_request serve cfg w)))) \<and>
   (\<forall>r. fst (serve (srv w) (outgoing cfg w)) = Responds r \<longrightarrow>
        (if validateStatus (status r) then (Log, [S ''Response Data:'', V (resp_data r)])
         else (Err, [S ''Error Data:'', V (resp_data r)]))
          \<in> set (console (snd (api_request serve cfg w)))) \<and>
   (fst (login serve u p w) = Inr True \<longrightarrow>
      (\<exists>r. fst (serve (srv w) (outgoing (login_config u p) w)) = Responds r \<and>
           has_access_token (resp_data r) \<and>
           (Log, [S ''Response Data:'', V (resp_data r)])
             \<in> set (console (snd (login serve u p w))) \<and>
           localStorage (snd (login serve u p w)) ''token'' =
             Some (to_String (the_access_token (resp_data r)))))"
proof -
  obtain ls where ls: "console (snd (api_request serve cfg w)) = console w @ ls"
    "(Log, [S ''Request Headers:'', V (headers_obj (headers (outgoing cfg w)))]) \<in> set ls"
    "(case data (outgoing cfg w) of
           FormData es \<Rightarrow> \<forall>(k, v) \<in> set es. (Log, [S (k @ '': '' @ v)]) \<in> set ls
         | d \<Rightarrow> (Log, [S ''Request Data:'', D d]) \<in> set ls)"
    "(case fst (serve (srv w) (outgoing cfg w)) of
           Responds r \<Rightarrow>
             (if validateStatus (status r) then (Log, [S ''Response Data:'', V (resp_data r)])
              else (Err, [S ''Error Data:'', V (resp_data r)])) \<in> set ls
         | NetworkError \<Rightarrow> True)"
    using api_request_console [of serve cfg w] by blast
  have c1: "sent (snd (api_request serve cfg w)) = sent w @ [outgoing cfg w]"
    by (simp add: api_request_frame)
  have c2: "(Log, [S ''Request Headers:'', V (headers_obj (headers (outgoing cfg w)))])
     \<in> set (console (snd (api_request serve cfg w)))"
    using ls(1,2) by simp
  have c3: "get_prop (headers_obj (headers (outgoing cfg w))) ''Authorization'' =
          Inr (JStr (''Bearer '' @ t))"
    if "localStorage w ''token'' = Some t \<and> t \<noteq> []" for t
    using that by (simp add: headers_obj_prop outgoing_cases map_of_update_same)
  have c4: "(case data cfg of
      FormData es \<Rightarrow>
        \<forall>(k, v) \<in> set es.
          (Log, [S (k @ '': '' @ v)]) \<in> set (console (snd (api_request serve cfg w)))
    | d \<Rightarrow> (Log, [S ''Request Data:'', D d]) \<in> set (console (snd (api_request serve cfg w))))"
    using ls(1,3) by (auto simp: outgoing_data split: body.splits)
  have c5: "(if validateStatus (status r) then (Log, [S ''Response Data:'', V (resp_data r)])
         else (Err, [S ''Error Data:'', V (resp_data r)]))
          \<in> set (console (snd (api_request serve cfg w)))"
    if "fst (serve (srv w) (outgoing cfg w)) = Responds r" for r
    using ls(1,4) that by (auto split: if_splits)
  have c6: "\<exists>r. fst (serve (srv w) (outgoing (login_config u p) w)) = Responds r \<and>
           has_access_token (resp_data r) \<and>
           (Log, [S ''Response Data:'', V (resp_data r)])
             \<in> set (console (snd (login serve u p w))) \<and>
           localStorage (snd (login serve u p w)) ''token'' =
             Some (to_String (the_access_token (resp_data r)))"
    if t: "fst (login serve u p w) = Inr True"
  proof -
    from t obtain r where r: "fst (serve (srv w) (outgoing (login_config u p) w)) = Responds r"
      "validateStatus (status r)" "has_access_token (resp_data r)"
      by (rule login_Inr_True)
    let ?w0 = "w\<lparr>console := console w @ login_prelude u p\<rparr>"
    have "fst (serve (srv ?w0) (outgoing (login_config u p) ?w0)) = Responds r"
      using r(1) by simp
    with api_request_console [of serve "login_config u p" ?w0] r(2)
    have "(Log, [S ''Response Data:'', V (resp_data r)])
            \<in> set (console (snd (api_request serve (login_config u p) ?w0)))"
      by auto
    with login_console_api [of serve u p w]
    have "(Log, [S ''Response Data:'', V (resp_data r)]) \<in> set (console (snd (login serve u p w)))"
      by blast
    moreover have "localStorage (snd (login serve u p w)) ''token'' =
             Some (to_String (the_access_token (resp_data r)))"
      using r by (simp add: login_on_token(2))
    ultimately show ?thesis using r(1,3) by blast
  qed
  have c7: "headers (outgoing cfg w) = headers cfg"
    if "localStorage w ''token'' = None \<or> localStorage w ''token'' = Some []"
    using that by (auto simp: outgoing_cases)
  from c1 c2 c3 c4 c5 c6 c7 show ?thesis by blast
qed


theorem api_call_is_logged_witness:
  "(Log, [S ''Request Headers:'',
          V (JObj [(''Accept'', JStr ''application/json, text/plain, */*''),
                   (''Content-Type'', JStr ''application/json''),
                   (''Authorization'', JStr ''Bearer abc.def.ghi'')])])
     \<in> set (console (snd (api_request (answering (Responds failure)) tasks_config
                 (fresh\<lparr>localStorage := [''token'' \<mapsto> ''abc.def.ghi'']\<rparr>)))) \<and>
   (Log, [S ''Request Data:'', D (Plain JUndefined)])
     \<in> set (console (snd (api_request (answering (Responds failure)) tasks_config
                 (fresh\<lparr>localStorage := [''token'' \<mapsto> ''abc.def.ghi'']\<rparr>)))) \<and>
   (Err, [S ''Error Data:'', V (JStr ''Internal Server Error'')])
     \<in> set (console (snd (api_request (answering (Responds failure)) tasks_config
                 (fresh\<lparr>localStorage := [''token'' \<mapsto> ''abc.def.ghi'']\<rparr>)))) \<and>
   (Log, [S ''Response Data:'',
          V (JObj [(''access_token'', JStr ''abc.def.ghi''), (''token_type'', JStr ''bearer'')])])
     \<in> set (console (snd (login (answering (Responds token_response)) ''alice'' ''Abcdef12''
                 fresh)))"
proof -
  have p1: "fst (answering (Responds token_response) (srv fresh)
                 (outgoing (login_config ''alice'' ''Abcdef12'') fresh)) = Responds token_response"
    by (simp add: answering_def)
  have p2: "validateStatus (status token_response)"
    by (simp add: token_response_def validateStatus_def)
  have p3: "has_access_token (resp_data token_response)"
    by (simp add: token_response_def has_access_token_def)
  have l: "fst (login (answering (Responds token_response)) ''alice'' ''Abcdef12'' fresh) = Inr True"
    using login_on_token(1) [of "answering (Responds token_response)" fresh "''alice''"
        "''Abcdef12''" token_response, OF p1 p2 p3] .
  have d: "resp_data token_response =
      JObj [(''access_token'', JStr ''abc.def.ghi''), (''token_type'', JStr ''bearer'')]"
    by (simp add: token_response_def)
  have h: "headers (outgoing tasks_config (fresh\<lparr>localStorage := [''token'' \<mapsto> ''abc.def.ghi'']\<rparr>)) =
      [(''Accept'', ''application/json, text/plain, */*''),
       (''Content-Type'', ''application/json''), (''Authorization'', ''Bearer abc.def.ghi'')]"
    by (simp add: outgoing_cases tasks_config_def default_headers_def)
  show ?thesis
    using api_call_is_logged [of "answering (Responds failure)" tasks_config
            "fresh\<lparr>localStorage := [''token'' \<mapsto> ''abc.def.ghi'']\<rparr>" "''alice''" "''Abcdef12''"]
          api_call_is_logged [of "answering (Responds token_response)" tasks_config
            fresh "''alice''" "''Abcdef12''"] l
    unfolding h
    by (auto simp: answering_def d headers_obj_def failure_def validateStatus_def
          tasks_config_def)
qed

text \<open>
  C3. When a submission of the login form passes validation and the server answers the
  login request with status 401, the handler ends normally, the form shows the message
  ``Incorrect username or password'' and nothing else of the form changes but the
  loading flag. Two such runs, with different servers, browsers and response bodies,
  leave the form in the same state: what the user sees does not depend on which
  credential was wrong.
\<close>

theorem login_401_message:
  assumes "validateUsername (formData_username st) = []"
    and "validatePassword (formData_password st) = []"
    and "fst (serve (srv w)
           (outgoing (login_config (formData_username st) (formData_password st)) w)) =
         Responds r"
    and "status r = 401"
    and "fst (serve' (srv w')
           (outgoing (login_config (formData_username st) (formData_password st)) w')) =
         Responds r'"
    and "status r' = 401"
  shows "fst (Login_handleSubmit serve st w) = Inr () \<and>
         fst (snd (Login_handleSubmit serve st w)) =
           st\<lparr>errors_form := JStr ''Incorrect username or password'', isLoading := False\<rparr> \<and>
         navigations (snd (snd (Login_handleSubmit serve st w))) = navigations w \<and>
         href (snd (snd (Login_handleSubmit serve st w))) = ''/login'' \<and>
         fst (snd (Login_handleSubmit serve' st w')) =
           fst (snd (Login_handleSubmit serve st w))"
proof -
  have run: "fst (Login_handleSubmit sv st x) = Inr () \<and>
         fst (snd (Login_handleSubmit sv st x)) =
           st\<lparr>errors_form := JStr ''Incorrect username or password'', isLoading := False\<rparr> \<and>
         navigations (snd (snd (Login_handleSubmit sv st x))) = navigations x \<and>
         href (snd (snd (Login_handleSubmit sv st x))) = ''/login''"
    if a: "fst (sv (srv x)
           (outgoing (login_config (formData_username st) (formData_password st)) x)) =
         Responds q" and b: "status q = 401"
    for sv :: "'c server" and x q
  proof -
    have v: "\<not> validateStatus (status q)"
      using b by (simp add: validateStatus_def)
    note l = login_on_status [of sv x "formData_username st" "formData_password st" q, OF a v]
      login_frame(4)
    show ?thesis
      using b
      by (simp add: Login_handleSubmit_accepted [OF assms(1,2)] Let_def l
            Login_errorMessage_401 console_log_frame)
  qed
  from run [of serve w r, OF assms(3,4)] run [of serve' w' r', OF assms(5,6)]
  show ?thesis by simp
qed

theorem login_401_message_witness:
  "errors_form (fst (snd (Login_handleSubmit (answering (Responds (denial ''No such user'')))
       alice_form fresh))) = JStr ''Incorrect username or password'' \<and>
   fst (snd (Login_handleSubmit (answering (Responds (denial ''Wrong password''))) alice_form fresh)) =
   fst (snd (Login_handleSubmit (answering (Responds (denial ''No such user''))) alice_form fresh))"
  using login_401_message [of alice_form "answering (Responds (denial ''No such user''))" fresh
          "denial ''No such user''" "answering (Responds (denial ''Wrong password''))" fresh
          "denial ''Wrong password''"]
  by (simp add: alice_form_def alice_accepted answering_def denial_def)

text \<open>
  C6. \<open>validatePassword\<close> accepts a password (returns the empty message) exactly when
  it has at least 8 characters and at least one of \<open>A-Z\<close>, one of \<open>a-z\<close> and one of
  \<open>0-9\<close>; \<open>validateUsername\<close> accepts a username exactly when it has at least 3
  characters, all of them among \<open>a-z\<close>, \<open>A-Z\<close>, \<open>0-9\<close>, \<open>_\<close> and \<open>-\<close>. A submission of the
  login form or of the registration form with a username or password that fails its rule
  ends without a request being sent; a submission of the login form that passes sends the
  login request. \<open>alice\<close> and \<open>Abcdef12\<close> are accepted.
\<close>

theorem format_rules:
  "(validatePassword p = [] \<longleftrightarrow> password_rule p) \<and>
   (validateUsername u = [] \<longleftrightarrow> username_rule u) \<and>
   (\<not> (username_rule (formData_username st) \<and> password_rule (formData_password st)) \<longrightarrow>
      fst (Login_handleSubmit serve st w) = Inr () \<and>
      snd (snd (Login_handleSubmit serve st w)) = w) \<and>
   (username_rule (formData_username st) \<and> password_rule (formData_password st) \<longrightarrow>
      sent (snd (snd (Login_handleSubmit serve st w))) =
        sent w @ [outgoing (login_config (formData_username st) (formData_password st)) w]) \<and>
   (\<not> (username_rule (reg_username rs) \<and> password_rule (reg_password rs)) \<longrightarrow>
      fst (Register_handleSubmit serve rs w) = Inr () \<and>
      sent (snd (snd (Register_handleSubmit serve rs w))) = sent w \<and>
      srv (snd (snd (Register_handleSubmit serve rs w))) = srv w \<and>
      localStorage (snd (snd (Register_handleSubmit serve rs w))) = localStorage w) \<and>
   validateUsername ''alice'' = [] \<and> validatePassword ''Abcdef12'' = []"
proof -
  have a: "fst (Login_handleSubmit serve st w) = Inr () \<and>
      snd (snd (Login_handleSubmit serve st w)) = w"
    if "\<not> (username_rule (formData_username st) \<and> password_rule (formData_password st))"
  proof -
    from that have "validateUsername (formData_username st) \<noteq> [] \<or>
           validatePassword (formData_password st) \<noteq> []"
      by (simp add: validateUsername_iff validatePassword_iff)
    then show ?thesis by (simp add: Login_handleSubmit_rejected)
  qed
  have b: "sent (snd (snd (Login_handleSubmit serve st w))) =
        sent w @ [outgoing (login_config (formData_username st) (formData_password st)) w]"
    if "username_rule (formData_username st) \<and> password_rule (formData_password st)"
    using that
    by (intro Login_handleSubmit_sent) (simp_all add: validateUsername_iff validatePassword_iff)
  have c: "fst (Register_handleSubmit serve rs w) = Inr () \<and>
      sent (snd (snd (Register_handleSubmit serve rs w))) = sent w \<and>
      srv (snd (snd (Register_handleSubmit serve rs w))) = srv w \<and>
      localStorage (snd (snd (Register_handleSubmit serve rs w))) = localStorage w"
    if "\<not> (username_rule (reg_username rs) \<and> password_rule (reg_password rs))"
  proof -
    from that have "validateUsername (reg_username rs) \<noteq> [] \<or>
           validatePassword (reg_password rs) \<noteq> []"
      by (simp add: validateUsername_iff validatePassword_iff)
    then show ?thesis
      by (simp add: Register_handleSubmit_rejected console_log_frame)
  qed
  from a b c alice_accepted show ?thesis
    by (simp add: validateUsername_iff validatePassword_iff)
qed

theorem format_rules_witness:
  "validatePassword ''abcdef12'' \<noteq> [] \<and> \<not> password_rule ''abcdef12'' \<and>
   validateUsername ''al ice'' \<noteq> [] \<and> \<not> username_rule ''al ice'' \<and>
   password_rule ''Abcdef12'' \<and> username_rule ''alice'' \<and>
   snd (snd (Login_handleSubmit (answering (Responds token_response))
               (alice_form\<lparr>formData_password := ''abcdef12''\<rparr>) fresh)) = fresh \<and>
   map url (sent (snd (snd (Login_handleSubmit (answering (Responds token_response))
               alice_form fresh)))) = [''/login''] \<and>
   sent (snd (snd (Register_handleSubmit (answering (Responds token_response))
               \<lparr>reg_username = ''al'', reg_password = ''Abcdef12'',
                reg_confirmPassword = ''Abcdef12'', reg_errors_username = [],
                reg_errors_password = [], reg_errors_confirmPassword = [],
                reg_errors_form = JStr [], reg_isLoading = False\<rparr> fresh))) = []"
proof -
  have r: "\<not> password_rule ''abcdef12''" "\<not> username_rule ''al ice''" "\<not> username_rule ''al''"
    "password_rule ''Abcdef12''" "username_rule ''alice''"
    by (simp_all add: password_rule_def username_rule_def upper_def lower_def digit_def
          in_range_def)
  show ?thesis
    using format_rules [of "''abcdef12''" "''al ice''"
            "alice_form\<lparr>formData_password := ''abcdef12''\<rparr>"
            "answering (Responds token_response)" fresh
            "\<lparr>reg_username = ''al'', reg_password = ''Abcdef12'',
                reg_confirmPassword = ''Abcdef12'', reg_errors_username = [],
                reg_errors_password = [], reg_errors_confirmPassword = [],
                reg_errors_form = JStr [], reg_isLoading = False\<rparr>"]
          format_rules [of "''Abcdef12''" "''alice''" alice_form
            "answering (Responds token_response)" fresh
            "\<lparr>reg_username = ''al'', reg_password = ''Abcdef12'',
                reg_confirmPassword = ''Abcdef12'', reg_errors_username = [],
                reg_errors_password = [], reg_errors_confirmPassword = [],
                reg_errors_form = JStr [], reg_isLoading = False\<rparr>"]
          r
    by (simp add: alice_form_def fresh_def outgoing_cases login_config_def)
qed

end
